theory Spec2Isabelle
  imports Main "HOL-Library.Word"
begin

section \<open>The branch prediction unit of MARSS-RISCV (src/riscvsim/bpu.c)\<close>

text \<open>
  The coordinator \<^verbatim>\<open>bpu.c\<close> sits between the pipeline and two collaborators whose
  code lives in other files of the simulator: the branch target buffer (\<^verbatim>\<open>btb_*\<close>) and
  the optional adaptive predictor (\<^verbatim>\<open>adaptive_predictor_*\<close>). The embedding keeps the
  state of both collaborators opaque (type variables \<open>'btb\<close> and \<open>'ap\<close>) and takes their
  functions as a record of operations, so that every theorem holds for any implementation
  of them. Each call the coordinator makes is also appended to a log kept in the unit, which
  is what the statements "is queried", "is allocated", "is updated" are read from.
\<close>

subsection \<open>Constants of bpu.c\<close>

definition PRED_NOT_TAKEN :: int where "PRED_NOT_TAKEN = 0"
definition PRED_TAKEN :: int where "PRED_TAKEN = 1"
definition BPU_MISS :: int where "BPU_MISS = 0"
definition BPU_HIT :: int where "BPU_HIT = 1"

subsection \<open>Data declared in headers\<close>

text \<open>
  Modelled from the spec: \<^verbatim>\<open>target_ulong\<close> is a typedef of a header that is not among
  the sources. It is the unsigned machine integer holding a program counter or a branch
  target. The embedding takes it as the type parameter \<open>'w\<close>; the coordinator copies and
  returns such values and needs nothing of them but the constant 0. The examples
  instantiate it with 64-bit words.

  Modelled from the spec: the branch type tags \<^verbatim>\<open>BRANCH_UNCOND\<close> and \<^verbatim>\<open>BRANCH_COND\<close>
  are macros of a header that is not among the sources; the field and the parameter that hold
  them are C ints. The two tags are distinct (they label two cases of one switch), and
  every other int is a tag \<open>BRANCH_OTHER n\<close>.
\<close>

datatype branch_type = BRANCH_UNCOND | BRANCH_COND | BRANCH_OTHER int

text \<open>
  Modelled from the spec: \<^verbatim>\<open>BtbEntry\<close> is declared with the branch target buffer. The
  coordinator reads three of its fields: the stored target, the branch type and the
  saturating counter \<^verbatim>\<open>pred\<close>.
\<close>

record 'w BtbEntry =
  target :: 'w
  type :: branch_type
  pred :: int

text \<open>
  A \<^verbatim>\<open>BtbEntry *\<close> is an address; whether an entry lives at it is decided by the memory of
  the branch target buffer (\<open>btb_entry_at\<close> below). A null or dangling pointer is an address
  with no entry.
\<close>

type_synonym entry_ptr = nat

text \<open>
  Modelled from the spec: \<^verbatim>\<open>BPUResponsePkt\<close> is declared in \<^verbatim>\<open>bpu.h\<close>, which is not among
  the sources. The three statuses are C ints holding \<^verbatim>\<open>BPU_HIT\<close> or \<^verbatim>\<open>BPU_MISS\<close>.
\<close>

record BPUResponsePkt =
  bpu_probe_status :: int
  btb_probe_status :: int
  ap_probe_status :: int
  btb_entry :: entry_ptr

text \<open>
  Modelled from the spec: \<^verbatim>\<open>SimStats\<close> is declared by the simulator, in a header that is
  not among the sources. The coordinator touches four counters of it. Each is an unsigned
  machine integer that \<^verbatim>\<open>++\<close> wraps to 0 at its maximum; the width is not known from
  \<^verbatim>\<open>bpu.c\<close> and is the type parameter \<open>'c\<close>, so a counter is a \<open>'c word\<close>. The
  examples use 64 bits.
\<close>

record (overloaded) 'c SimStats =
  btb_probes :: "'c::len word"
  btb_hits :: "'c word"
  btb_inserts :: "'c word"
  btb_updates :: "'c word"

subsection \<open>The collaborators\<close>

text \<open>
  Modelled from the spec: the operations of the branch target buffer and of the adaptive
  predictor that \<^verbatim>\<open>bpu.c\<close> calls. Their bodies are not among the sources, so each is a
  parameter. An operation that receives a pointer to its structure may change it, so each
  returns the structure as it leaves it. \<open>btb_probe\<close> writes the entry pointer through
  an out-parameter: it receives the pointer's old value and returns the new one.
  \<open>btb_entry_at\<close> is the memory in which the entries live, read by the coordinator when
  it dereferences an entry pointer.
\<close>

record ('btb, 'ap, 'w) collaborators =
  btb_probe :: "'btb \<Rightarrow> 'w \<Rightarrow> entry_ptr \<Rightarrow> int \<times> entry_ptr \<times> 'btb"
  btb_entry_at :: "'btb \<Rightarrow> entry_ptr \<Rightarrow> 'w BtbEntry option"
  btb_add :: "'btb \<Rightarrow> 'w \<Rightarrow> branch_type \<Rightarrow> 'btb"
  btb_update :: "'btb \<Rightarrow> entry_ptr \<Rightarrow> 'w \<Rightarrow> int \<Rightarrow> branch_type \<Rightarrow> 'btb"
  adaptive_predictor_probe :: "'ap \<Rightarrow> 'w \<Rightarrow> int \<times> 'ap"
  adaptive_predictor_get_prediction :: "'ap \<Rightarrow> 'w \<Rightarrow> int \<times> 'ap"
  adaptive_predictor_add :: "'ap \<Rightarrow> 'w \<Rightarrow> 'ap"
  adaptive_predictor_update :: "'ap \<Rightarrow> 'w \<Rightarrow> int \<Rightarrow> 'ap"

datatype 'w call =
    Call_btb_probe 'w
  | Call_btb_add 'w branch_type
  | Call_btb_update entry_ptr 'w int branch_type
  | Call_ap_probe 'w
  | Call_ap_get_prediction 'w
  | Call_ap_add 'w
  | Call_ap_update 'w int

subsection \<open>The unit\<close>

text \<open>
  \<^verbatim>\<open>BranchPredUnit\<close>: the branch target buffer, the adaptive predictor (\<open>None\<close> is the
  null pointer of bimodal mode), and the statistics array of the simulator, indexed by
  privilege level. \<open>calls\<close> is the log of collaborator calls; it is not a field of the C
  struct.
\<close>

record (overloaded) ('btb, 'ap, 'w, 'c) BranchPredUnit =
  btb :: 'btb
  ap :: "'ap option"
  stats :: "'c SimStats list"
  calls :: "'w call list"

text \<open>
  What stops a call: an index outside the statistics array and a read through a pointer
  with no entry behind it are undefined behaviour in C; \<^verbatim>\<open>assert(0)\<close> aborts.
\<close>

datatype fault = Stats_index_out_of_range | Invalid_entry_pointer | Assertion_failed

definition logged :: "'w call \<Rightarrow> ('btb, 'ap, 'w, 'c::len) BranchPredUnit \<Rightarrow> ('btb, 'ap, 'w, 'c::len) BranchPredUnit" where
  "logged c u = u\<lparr>calls := calls u @ [c]\<rparr>"

definition new_calls ::
  "('btb, 'ap, 'w, 'c::len) BranchPredUnit \<Rightarrow> ('btb, 'ap, 'w, 'c::len) BranchPredUnit \<Rightarrow> 'w call list" where
  "new_calls u u' = drop (length (calls u)) (calls u')"

text \<open>
  \<^verbatim>\<open>++(u->stats[priv].field)\<close>, for a field given by its update \<open>f\<close>. The four
  updates add 1 to a word, which wraps.
\<close>

definition stats_incr ::
  "('c SimStats \<Rightarrow> 'c SimStats) \<Rightarrow> int \<Rightarrow> ('btb, 'ap, 'w, 'c::len) BranchPredUnit
     \<Rightarrow> fault + ('btb, 'ap, 'w, 'c::len) BranchPredUnit" where
  "stats_incr f priv u =
     (if 0 \<le> priv \<and> priv < int (length (stats u))
      then Inr (u\<lparr>stats := (stats u)[nat priv := f (stats u ! nat priv)]\<rparr>)
      else Inl Stats_index_out_of_range)"

definition incr_btb_probes :: "'c::len SimStats \<Rightarrow> 'c SimStats" where
  "incr_btb_probes s = s\<lparr>btb_probes := btb_probes s + 1\<rparr>"

definition incr_btb_hits :: "'c::len SimStats \<Rightarrow> 'c SimStats" where
  "incr_btb_hits s = s\<lparr>btb_hits := btb_hits s + 1\<rparr>"

definition incr_btb_inserts :: "'c::len SimStats \<Rightarrow> 'c SimStats" where
  "incr_btb_inserts s = s\<lparr>btb_inserts := btb_inserts s + 1\<rparr>"

definition incr_btb_updates :: "'c::len SimStats \<Rightarrow> 'c SimStats" where
  "incr_btb_updates s = s\<lparr>btb_updates := btb_updates s + 1\<rparr>"

text \<open>C's \<^verbatim>\<open>a && b\<close> on ints: 1 when both are nonzero, else 0.\<close>

definition c_and :: "int \<Rightarrow> int \<Rightarrow> int" where
  "c_and a b = (if a \<noteq> 0 \<and> b \<noteq> 0 then 1 else 0)"

subsection \<open>bpu\_probe\<close>

text \<open>
  Lines 84 and 85: \<^verbatim>\<open>ap_probe_status\<close> is set to \<^verbatim>\<open>BPU_HIT\<close>, then the branch target
  buffer is probed; its status and the entry pointer it writes go into the packet.
\<close>

definition probe_lookup ::
  "('btb, 'ap, 'w) collaborators \<Rightarrow> ('btb, 'ap, 'w, 'c::len) BranchPredUnit \<Rightarrow> 'w \<Rightarrow> BPUResponsePkt
     \<Rightarrow> BPUResponsePkt \<times> ('btb, 'ap, 'w, 'c::len) BranchPredUnit" where
  "probe_lookup C u pc p =
     (let p1 = p\<lparr>ap_probe_status := BPU_HIT\<rparr>;
          (st, ent, b) = btb_probe C (btb u) pc (btb_entry p1)
      in (p1\<lparr>btb_probe_status := st, btb_entry := ent\<rparr>,
          logged (Call_btb_probe pc) (u\<lparr>btb := b\<rparr>)))"

text \<open>Lines 86 to 90: the hit counter when the status is \<^verbatim>\<open>BPU_HIT\<close>, then the probe counter.\<close>

definition probe_count ::
  "int \<Rightarrow> BPUResponsePkt \<Rightarrow> ('btb, 'ap, 'w, 'c::len) BranchPredUnit
     \<Rightarrow> fault + ('btb, 'ap, 'w, 'c::len) BranchPredUnit" where
  "probe_count priv p u =
     (case (if btb_probe_status p = BPU_HIT then stats_incr incr_btb_hits priv u else Inr u) of
        Inl f \<Rightarrow> Inl f
      | Inr u2 \<Rightarrow> stats_incr incr_btb_probes priv u2)"

text \<open>\<^verbatim>\<open>p->btb_entry->type\<close>: a read through the entry pointer.\<close>

definition entry_type ::
  "('btb, 'ap, 'w) collaborators \<Rightarrow> ('btb, 'ap, 'w, 'c::len) BranchPredUnit \<Rightarrow> entry_ptr
     \<Rightarrow> fault + branch_type" where
  "entry_type C u ptr =
     (case btb_entry_at C (btb u) ptr of
        None \<Rightarrow> Inl Invalid_entry_pointer
      | Some e \<Rightarrow> Inr (type e))"

text \<open>
  Lines 92 to 96. The condition
  \<^verbatim>\<open>u->ap && ((p->btb_probe_status == BPU_MISS) || (p->btb_entry->type == BRANCH_COND))\<close>
  is evaluated from left to right with short circuit: the entry is read only when the unit
  has an adaptive predictor and the status is not \<^verbatim>\<open>BPU_MISS\<close>.
\<close>

definition probe_adaptive ::
  "('btb, 'ap, 'w) collaborators \<Rightarrow> ('btb, 'ap, 'w, 'c::len) BranchPredUnit \<Rightarrow> 'w \<Rightarrow> BPUResponsePkt
     \<Rightarrow> fault + (BPUResponsePkt \<times> ('btb, 'ap, 'w, 'c::len) BranchPredUnit)" where
  "probe_adaptive C u pc p =
     (case ap u of
        None \<Rightarrow> Inr (p, u)
      | Some a \<Rightarrow>
         (case (if btb_probe_status p = BPU_MISS then Inr True
                else (case entry_type C u (btb_entry p) of
                        Inl f \<Rightarrow> Inl f
                      | Inr ty \<Rightarrow> Inr (ty = BRANCH_COND))) of
            Inl f \<Rightarrow> Inl f
          | Inr consult \<Rightarrow>
             if consult
             then (let (r, a') = adaptive_predictor_probe C a pc
                   in Inr (p\<lparr>ap_probe_status := r\<rparr>,
                           logged (Call_ap_probe pc) (u\<lparr>ap := Some a'\<rparr>)))
             else Inr (p, u)))"

text \<open>The whole function; line 98 closes it.\<close>

definition bpu_probe ::
  "('btb, 'ap, 'w) collaborators \<Rightarrow> ('btb, 'ap, 'w, 'c::len) BranchPredUnit \<Rightarrow> 'w
     \<Rightarrow> BPUResponsePkt \<Rightarrow> int \<Rightarrow> fault + (BPUResponsePkt \<times> ('btb, 'ap, 'w, 'c::len) BranchPredUnit)" where
  "bpu_probe C u pc p priv =
     (let (p2, u1) = probe_lookup C u pc p
      in case probe_count priv p2 u1 of
           Inl f \<Rightarrow> Inl f
         | Inr u3 \<Rightarrow>
            (case probe_adaptive C u3 pc p2 of
               Inl f \<Rightarrow> Inl f
             | Inr (p3, u4) \<Rightarrow>
                 Inr (p3\<lparr>bpu_probe_status :=
                           c_and (btb_probe_status p3) (ap_probe_status p3)\<rparr>, u4)))"

subsection \<open>bpu\_get\_target\<close>

text \<open>
  The switch on the entry's type; a tag that matches no case falls out of the switch to
  \<^verbatim>\<open>assert(0)\<close>. The result is the returned address together with the unit, whose
  adaptive predictor has been asked for its prediction in the conditional case.
\<close>

definition bpu_get_target ::
  "('btb, 'ap, 'w) collaborators \<Rightarrow> ('btb, 'ap, 'w::zero, 'c::len) BranchPredUnit \<Rightarrow> 'w
     \<Rightarrow> entry_ptr \<Rightarrow> fault + ('w \<times> ('btb, 'ap, 'w, 'c::len) BranchPredUnit)" where
  "bpu_get_target C u pc ptr =
     (case btb_entry_at C (btb u) ptr of
        None \<Rightarrow> Inl Invalid_entry_pointer
      | Some e \<Rightarrow>
         (case type e of
            BRANCH_UNCOND \<Rightarrow> Inr (target e, u)
          | BRANCH_COND \<Rightarrow>
             (case ap u of
                Some a \<Rightarrow>
                  (let (v, a') = adaptive_predictor_get_prediction C a pc;
                       u1 = logged (Call_ap_get_prediction pc) (u\<lparr>ap := Some a'\<rparr>)
                   in if v \<noteq> 0 then Inr (target e, u1) else Inr (0, u1))
              | None \<Rightarrow>
                  if pred e > 1 then Inr (target e, u) else Inr (0, u))
          | BRANCH_OTHER n \<Rightarrow> Inl Assertion_failed))"

subsection \<open>bpu\_add\<close>

definition bpu_add ::
  "('btb, 'ap, 'w) collaborators \<Rightarrow> ('btb, 'ap, 'w, 'c::len) BranchPredUnit \<Rightarrow> 'w
     \<Rightarrow> branch_type \<Rightarrow> BPUResponsePkt \<Rightarrow> int \<Rightarrow> fault + ('btb, 'ap, 'w, 'c::len) BranchPredUnit" where
  "bpu_add C u pc ty p priv =
     (case (if btb_probe_status p = 0
            then stats_incr incr_btb_inserts priv
                   (logged (Call_btb_add pc ty) (u\<lparr>btb := btb_add C (btb u) pc ty\<rparr>))
            else Inr u) of
        Inl f \<Rightarrow> Inl f
      | Inr u1 \<Rightarrow>
         (case ap u1 of
            Some a \<Rightarrow>
              if ty = BRANCH_COND
              then (if ap_probe_status p = 0
                    then Inr (logged (Call_ap_add pc)
                                (u1\<lparr>ap := Some (adaptive_predictor_add C a pc)\<rparr>))
                    else Inr u1)
              else Inr u1
          | None \<Rightarrow> Inr u1))"

subsection \<open>bpu\_update\<close>

text \<open>
  The collaborator's \<^verbatim>\<open>btb_update\<close> is written with its record's name in front, since
  the plain name is taken by the update of the unit's field \<open>btb\<close>.
\<close>

definition bpu_update ::
  "('btb, 'ap, 'w) collaborators \<Rightarrow> ('btb, 'ap, 'w, 'c::len) BranchPredUnit \<Rightarrow> 'w \<Rightarrow> 'w
     \<Rightarrow> int \<Rightarrow> branch_type \<Rightarrow> BPUResponsePkt \<Rightarrow> int
     \<Rightarrow> fault + ('btb, 'ap, 'w, 'c::len) BranchPredUnit" where
  "bpu_update C u pc tgt prd ty p priv =
     (case (if btb_probe_status p \<noteq> 0
            then stats_incr incr_btb_updates priv
                   (logged (Call_btb_update (btb_entry p) tgt prd ty)
                      (u\<lparr>btb := collaborators.btb_update C (btb u) (btb_entry p) tgt prd ty\<rparr>))
            else Inr u) of
        Inl f \<Rightarrow> Inl f
      | Inr u1 \<Rightarrow>
         (case ap u1 of
            Some a \<Rightarrow>
              if ty = BRANCH_COND
              then (if ap_probe_status p \<noteq> 0
                    then Inr (logged (Call_ap_update pc prd)
                                (u1\<lparr>ap := Some (adaptive_predictor_update C a pc prd)\<rparr>))
                    else Inr u1)
              else Inr u1
          | None \<Rightarrow> Inr u1))"

subsection \<open>Sequences of probes\<close>

text \<open>
  The fetch stage probes one address after another with the same packet and the same
  privilege level; a fault stops the run.
\<close>

fun bpu_probe_seq ::
  "('btb, 'ap, 'w) collaborators \<Rightarrow> ('btb, 'ap, 'w, 'c::len) BranchPredUnit \<Rightarrow> 'w list
     \<Rightarrow> BPUResponsePkt \<Rightarrow> int \<Rightarrow> fault + (BPUResponsePkt \<times> ('btb, 'ap, 'w, 'c::len) BranchPredUnit)" where
  "bpu_probe_seq C u [] p priv = Inr (p, u)"
| "bpu_probe_seq C u (pc # pcs) p priv =
     (case bpu_probe C u pc p priv of
        Inl f \<Rightarrow> Inl f
      | Inr (p', u') \<Rightarrow> bpu_probe_seq C u' pcs p' priv)"

subsection \<open>What the coordinator expects of its collaborators and callers\<close>

text \<open>A probe status is one of the two values \<^verbatim>\<open>BPU_MISS\<close> and \<^verbatim>\<open>BPU_HIT\<close>.\<close>

definition probe_status :: "int \<Rightarrow> bool" where
  "probe_status s = (s = BPU_MISS \<or> s = BPU_HIT)"

text \<open>
  A lookup of the branch target buffer that does not miss hands out a pointer with an entry
  behind it.
\<close>

definition hit_gives_entry :: "('btb, 'ap, 'w) collaborators \<Rightarrow> bool" where
  "hit_gives_entry C =
     (\<forall>b pc old st ent b'. btb_probe C b pc old = (st, ent, b') \<longrightarrow> st \<noteq> BPU_MISS
        \<longrightarrow> btb_entry_at C b' ent \<noteq> None)"

text \<open>The privilege level indexes the statistics array within its bounds.\<close>

definition priv_in_range :: "int \<Rightarrow> ('btb, 'ap, 'w, 'c::len) BranchPredUnit \<Rightarrow> bool" where
  "priv_in_range priv u = (0 \<le> priv \<and> priv < int (length (stats u)))"

definition stats_at :: "('btb, 'ap, 'w, 'c::len) BranchPredUnit \<Rightarrow> int \<Rightarrow> 'c SimStats" where
  "stats_at u priv = stats u ! nat priv"

subsection \<open>An implementation of the collaborators for the examples\<close>

text \<open>
  Modelled from the spec: a small branch target buffer and adaptive predictor, used only to
  run the coordinator on concrete inputs. The buffer is a list of slots (branch address and
  entry), the pointer to slot \<open>i\<close> is \<open>i + 1\<close> and 0 is the null pointer; a new entry has
  target 0 and counter 1; the counters move one step towards 3 on taken and towards 0 on
  not taken. The predictor keeps one such counter per branch address. No theorem about the
  coordinator depends on these definitions.
\<close>

type_synonym ex_btb = "(64 word \<times> 64 word BtbEntry) list"
type_synonym ex_ap = "(64 word \<times> int) list"

fun ex_slot :: "('k \<times> 'v) list \<Rightarrow> 'k \<Rightarrow> nat \<Rightarrow> nat" where
  "ex_slot [] k n = 0"
| "ex_slot ((k', v) # xs) k n = (if k' = k then n else ex_slot xs k (Suc n))"

definition sat_counter :: "int \<Rightarrow> int \<Rightarrow> int" where
  "sat_counter c taken = (if taken \<noteq> 0 then min 3 (c + 1) else max 0 (c - 1))"

definition ex_btb_probe :: "ex_btb \<Rightarrow> 64 word \<Rightarrow> entry_ptr \<Rightarrow> int \<times> entry_ptr \<times> ex_btb" where
  "ex_btb_probe b pc old =
     (if ex_slot b pc 1 = 0 then (BPU_MISS, 0, b) else (BPU_HIT, ex_slot b pc 1, b))"

definition ex_btb_entry_at :: "ex_btb \<Rightarrow> entry_ptr \<Rightarrow> 64 word BtbEntry option" where
  "ex_btb_entry_at b a = (if 0 < a \<and> a \<le> length b then Some (snd (b ! (a - 1))) else None)"

definition ex_btb_add :: "ex_btb \<Rightarrow> 64 word \<Rightarrow> branch_type \<Rightarrow> ex_btb" where
  "ex_btb_add b pc ty = b @ [(pc, \<lparr>target = 0, type = ty, pred = 1\<rparr>)]"

definition ex_btb_update ::
  "ex_btb \<Rightarrow> entry_ptr \<Rightarrow> 64 word \<Rightarrow> int \<Rightarrow> branch_type \<Rightarrow> ex_btb" where
  "ex_btb_update b a tgt prd ty =
     (if 0 < a \<and> a \<le> length b
      then b[a - 1 := (fst (b ! (a - 1)),
                       (snd (b ! (a - 1)))\<lparr>target := tgt,
                                             pred := sat_counter (pred (snd (b ! (a - 1)))) prd\<rparr>)]
      else b)"

definition ex_ap_probe :: "ex_ap \<Rightarrow> 64 word \<Rightarrow> int \<times> ex_ap" where
  "ex_ap_probe a pc = (if ex_slot a pc 1 = 0 then BPU_MISS else BPU_HIT, a)"

definition ex_ap_get_prediction :: "ex_ap \<Rightarrow> 64 word \<Rightarrow> int \<times> ex_ap" where
  "ex_ap_get_prediction a pc =
     (case map_of a pc of None \<Rightarrow> PRED_NOT_TAKEN
                        | Some c \<Rightarrow> if c > 1 then PRED_TAKEN else PRED_NOT_TAKEN, a)"

definition ex_ap_add :: "ex_ap \<Rightarrow> 64 word \<Rightarrow> ex_ap" where
  "ex_ap_add a pc = a @ [(pc, 1)]"

definition ex_ap_update :: "ex_ap \<Rightarrow> 64 word \<Rightarrow> int \<Rightarrow> ex_ap" where
  "ex_ap_update a pc prd = map (\<lambda>(k, c). if k = pc then (k, sat_counter c prd) else (k, c)) a"

definition ex_collaborators :: "(ex_btb, ex_ap, 64 word) collaborators" where
  "ex_collaborators =
     \<lparr>btb_probe = ex_btb_probe, btb_entry_at = ex_btb_entry_at, btb_add = ex_btb_add,
      btb_update = ex_btb_update, adaptive_predictor_probe = ex_ap_probe,
      adaptive_predictor_get_prediction = ex_ap_get_prediction,
      adaptive_predictor_add = ex_ap_add, adaptive_predictor_update = ex_ap_update\<rparr>"

definition ex_stats :: "64 SimStats list" where
  "ex_stats = replicate 4 \<lparr>btb_probes = 0, btb_hits = 0, btb_inserts = 0, btb_updates = 0\<rparr>"

definition ex_btb_contents :: ex_btb where
  "ex_btb_contents =
     [(0x4000, \<lparr>target = 0x5000, type = BRANCH_UNCOND, pred = 0\<rparr>),
      (0x3000, \<lparr>target = 0x3800, type = BRANCH_COND, pred = 3\<rparr>),
      (0x1000, \<lparr>target = 0x2000, type = BRANCH_COND, pred = 1\<rparr>),
      (0x6000, \<lparr>target = 0, type = BRANCH_UNCOND, pred = 1\<rparr>),
      (0x7000, \<lparr>target = 0, type = BRANCH_COND, pred = 3\<rparr>),
      (0x8000, \<lparr>target = 0x8800, type = BRANCH_OTHER 7, pred = 3\<rparr>)]"

definition ex_bimodal :: "(ex_btb, ex_ap, 64 word, 64) BranchPredUnit" where
  "ex_bimodal = \<lparr>btb = ex_btb_contents, ap = None, stats = ex_stats, calls = []\<rparr>"

definition ex_adaptive :: "(ex_btb, ex_ap, 64 word, 64) BranchPredUnit" where
  "ex_adaptive =
     \<lparr>btb = ex_btb_contents, ap = Some [(0x3000, 0), (0x1000, 3)], stats = ex_stats, calls = []\<rparr>"

definition ex_pkt :: BPUResponsePkt where
  "ex_pkt = \<lparr>bpu_probe_status = 0, btb_probe_status = 0, ap_probe_status = 0, btb_entry = 0\<rparr>"

definition ex_hit_pkt :: BPUResponsePkt where
  "ex_hit_pkt = \<lparr>bpu_probe_status = 1, btb_probe_status = 1, ap_probe_status = 1, btb_entry = 3\<rparr>"

section \<open>Properties\<close>

lemmas ex_defs = ex_collaborators_def ex_btb_probe_def ex_btb_entry_at_def ex_btb_add_def
  ex_btb_update_def ex_ap_probe_def ex_ap_get_prediction_def ex_ap_add_def ex_ap_update_def
  ex_stats_def ex_btb_contents_def ex_bimodal_def ex_adaptive_def sat_counter_def
  BPU_HIT_def BPU_MISS_def PRED_TAKEN_def PRED_NOT_TAKEN_def ex_pkt_def ex_hit_pkt_def

subsection \<open>Auxiliary facts about bpu\_probe\<close>

lemma BPU_HIT_not_MISS: "BPU_HIT \<noteq> BPU_MISS" "BPU_MISS \<noteq> BPU_HIT"
  by (simp_all add: BPU_HIT_def BPU_MISS_def)

lemma priv_in_range_nat: "priv_in_range priv u \<Longrightarrow> nat priv < length (stats u)"
  by (auto simp add: priv_in_range_def nat_less_iff)

lemma stats_incr_in_range:
  "priv_in_range priv u \<Longrightarrow>
     stats_incr f priv u = Inr (u\<lparr>stats := (stats u)[nat priv := f (stats u ! nat priv)]\<rparr>)"
  by (simp add: stats_incr_def priv_in_range_def)

lemma stats_incr_out_of_range:
  "\<not> priv_in_range priv u \<Longrightarrow> stats_incr f priv u = Inl Stats_index_out_of_range"
  by (simp add: stats_incr_def priv_in_range_def)

lemma priv_in_range_length:
  "length (stats u') = length (stats u) \<Longrightarrow> priv_in_range priv u' = priv_in_range priv u"
  by (simp add: priv_in_range_def)

lemma probe_lookup_eq:
  assumes "btb_probe C (btb u) pc (btb_entry p) = (st, ent, b)"
  shows "probe_lookup C u pc p =
           (p\<lparr>ap_probe_status := BPU_HIT, btb_probe_status := st, btb_entry := ent\<rparr>,
            u\<lparr>btb := b, calls := calls u @ [Call_btb_probe pc]\<rparr>)"
  using assms by (simp add: probe_lookup_def logged_def)

lemma probe_count_in_range:
  assumes "priv_in_range priv u"
  shows "probe_count priv p u =
           Inr (u\<lparr>stats := (stats u)[nat priv := incr_btb_probes
                  (if btb_probe_status p = BPU_HIT then incr_btb_hits (stats u ! nat priv)
                   else stats u ! nat priv)]\<rparr>)"
proof (cases "btb_probe_status p = BPU_HIT")
  case True
  have r: "priv_in_range priv (u\<lparr>stats := (stats u)[nat priv := incr_btb_hits (stats u ! nat priv)]\<rparr>)"
    using assms by (simp add: priv_in_range_def)
  from True priv_in_range_nat [OF assms] show ?thesis
    by (simp add: probe_count_def stats_incr_in_range [OF assms] stats_incr_in_range [OF r])
next
  case False
  then show ?thesis by (simp add: probe_count_def stats_incr_in_range [OF assms])
qed

lemma probe_count_out_of_range:
  assumes "\<not> priv_in_range priv u"
  shows "probe_count priv p u = Inl Stats_index_out_of_range"
  using assms by (simp add: probe_count_def stats_incr_out_of_range)

text \<open>The three ways in which \<open>bpu_probe\<close> returns, and the two in which it does not.\<close>

lemma bpu_probe_bimodal:
  assumes "btb_probe C (btb u) pc (btb_entry p) = (st, ent, b)"
    and "priv_in_range priv u" and "ap u = None"
  shows "\<exists>p' u'. bpu_probe C u pc p priv = Inr (p', u')
           \<and> btb_probe_status p' = st \<and> btb_entry p' = ent \<and> ap_probe_status p' = BPU_HIT
           \<and> bpu_probe_status p' = c_and st BPU_HIT
           \<and> btb u' = b \<and> ap u' = None
           \<and> calls u' = calls u @ [Call_btb_probe pc]
           \<and> stats u' = (stats u)[nat priv := incr_btb_probes
                 (if st = BPU_HIT then incr_btb_hits (stats u ! nat priv) else stats u ! nat priv)]"
proof -
  have r: "priv_in_range priv (u\<lparr>btb := b, calls := calls u @ [Call_btb_probe pc]\<rparr>)"
    using assms(2) by (simp add: priv_in_range_def)
  show ?thesis
    using assms(3)
    by (simp add: bpu_probe_def probe_lookup_eq [OF assms(1)] probe_count_in_range [OF r]
        probe_adaptive_def)
qed

lemma bpu_probe_consult:
  assumes "btb_probe C (btb u) pc (btb_entry p) = (st, ent, b)"
    and "priv_in_range priv u" and "ap u = Some a"
    and "st = BPU_MISS \<or> (\<exists>e. btb_entry_at C b ent = Some e \<and> type e = BRANCH_COND)"
    and "adaptive_predictor_probe C a pc = (r, a')"
  shows "\<exists>p' u'. bpu_probe C u pc p priv = Inr (p', u')
           \<and> btb_probe_status p' = st \<and> btb_entry p' = ent \<and> ap_probe_status p' = r
           \<and> bpu_probe_status p' = c_and st r
           \<and> btb u' = b \<and> ap u' = Some a'
           \<and> calls u' = calls u @ [Call_btb_probe pc, Call_ap_probe pc]
           \<and> stats u' = (stats u)[nat priv := incr_btb_probes
                 (if st = BPU_HIT then incr_btb_hits (stats u ! nat priv) else stats u ! nat priv)]"
proof -
  have r: "priv_in_range priv (u\<lparr>btb := b, calls := calls u @ [Call_btb_probe pc]\<rparr>)"
    using assms(2) by (simp add: priv_in_range_def)
  show ?thesis
  proof (cases "st = BPU_MISS")
    case True
    with assms(3,5) show ?thesis
      by (simp add: bpu_probe_def probe_lookup_eq [OF assms(1)] probe_count_in_range [OF r]
          probe_adaptive_def logged_def)
  next
    case False
    with assms(4) obtain e where "btb_entry_at C b ent = Some e" "type e = BRANCH_COND"
      by blast
    with False assms(3,5) show ?thesis
      by (simp add: bpu_probe_def probe_lookup_eq [OF assms(1)] probe_count_in_range [OF r]
          probe_adaptive_def entry_type_def logged_def)
  qed
qed

lemma bpu_probe_no_consult:
  assumes "btb_probe C (btb u) pc (btb_entry p) = (st, ent, b)"
    and "priv_in_range priv u" and "ap u = Some a"
    and "st \<noteq> BPU_MISS" and "btb_entry_at C b ent = Some e" and "type e \<noteq> BRANCH_COND"
  shows "\<exists>p' u'. bpu_probe C u pc p priv = Inr (p', u')
           \<and> btb_probe_status p' = st \<and> btb_entry p' = ent \<and> ap_probe_status p' = BPU_HIT
           \<and> bpu_probe_status p' = c_and st BPU_HIT
           \<and> btb u' = b \<and> ap u' = Some a
           \<and> calls u' = calls u @ [Call_btb_probe pc]
           \<and> stats u' = (stats u)[nat priv := incr_btb_probes
                 (if st = BPU_HIT then incr_btb_hits (stats u ! nat priv) else stats u ! nat priv)]"
proof -
  have r: "priv_in_range priv (u\<lparr>btb := b, calls := calls u @ [Call_btb_probe pc]\<rparr>)"
    using assms(2) by (simp add: priv_in_range_def)
  show ?thesis
    using assms(3,4,5,6)
    by (simp add: bpu_probe_def probe_lookup_eq [OF assms(1)] probe_count_in_range [OF r]
        probe_adaptive_def entry_type_def)
qed

lemma bpu_probe_bad_pointer:
  assumes "btb_probe C (btb u) pc (btb_entry p) = (st, ent, b)"
    and "priv_in_range priv u" and "ap u = Some a"
    and "st \<noteq> BPU_MISS" and "btb_entry_at C b ent = None"
  shows "bpu_probe C u pc p priv = Inl Invalid_entry_pointer"
proof -
  have r: "priv_in_range priv (u\<lparr>btb := b, calls := calls u @ [Call_btb_probe pc]\<rparr>)"
    using assms(2) by (simp add: priv_in_range_def)
  show ?thesis
    using assms(3,4,5)
    by (simp add: bpu_probe_def probe_lookup_eq [OF assms(1)] probe_count_in_range [OF r]
        probe_adaptive_def entry_type_def)
qed

lemma bpu_probe_bad_priv:
  assumes "\<not> priv_in_range priv u"
  shows "bpu_probe C u pc p priv = Inl Stats_index_out_of_range"
proof -
  obtain st ent b where bp: "btb_probe C (btb u) pc (btb_entry p) = (st, ent, b)"
    by (cases "btb_probe C (btb u) pc (btb_entry p)") auto
  have r: "\<not> priv_in_range priv (u\<lparr>btb := b, calls := calls u @ [Call_btb_probe pc]\<rparr>)"
    using assms by (simp add: priv_in_range_def)
  show ?thesis
    by (simp add: bpu_probe_def probe_lookup_eq [OF bp] probe_count_out_of_range [OF r])
qed

lemma bpu_probe_returns:
  assumes bp: "btb_probe C (btb u) pc (btb_entry p) = (st, ent, b)"
    and pr: "priv_in_range priv u"
    and valid: "ap u \<noteq> None \<Longrightarrow> st \<noteq> BPU_MISS \<Longrightarrow> btb_entry_at C b ent \<noteq> None"
  shows "\<exists>p' u'. bpu_probe C u pc p priv = Inr (p', u')
           \<and> btb_probe_status p' = st \<and> btb_entry p' = ent
           \<and> bpu_probe_status p' = c_and st (ap_probe_status p')
           \<and> btb u' = b
           \<and> stats u' = (stats u)[nat priv := incr_btb_probes
                 (if st = BPU_HIT then incr_btb_hits (stats u ! nat priv) else stats u ! nat priv)]
           \<and> new_calls u u' =
               (if ap u \<noteq> None
                   \<and> (st = BPU_MISS \<or> (\<exists>e. btb_entry_at C b ent = Some e \<and> type e = BRANCH_COND))
                then [Call_btb_probe pc, Call_ap_probe pc] else [Call_btb_probe pc])
           \<and> ap_probe_status p' =
               (case ap u of
                  None \<Rightarrow> BPU_HIT
                | Some a \<Rightarrow>
                    if st = BPU_MISS \<or> (\<exists>e. btb_entry_at C b ent = Some e \<and> type e = BRANCH_COND)
                    then fst (adaptive_predictor_probe C a pc) else BPU_HIT)"
proof (cases "ap u")
  case None
  from bpu_probe_bimodal [OF bp pr None] None show ?thesis
    by (auto simp add: new_calls_def)
next
  case (Some a)
  obtain r a' where ap: "adaptive_predictor_probe C a pc = (r, a')"
    by (cases "adaptive_predictor_probe C a pc") auto
  show ?thesis
  proof (cases "st = BPU_MISS \<or> (\<exists>e. btb_entry_at C b ent = Some e \<and> type e = BRANCH_COND)")
    case True
    from bpu_probe_consult [OF bp pr Some True ap] Some True ap show ?thesis
      by (auto simp add: new_calls_def)
  next
    case False
    with valid Some obtain e where e: "btb_entry_at C b ent = Some e" by auto
    with False have ne: "st \<noteq> BPU_MISS" and ty: "type e \<noteq> BRANCH_COND" by auto
    from bpu_probe_no_consult [OF bp pr Some ne e ty] Some False show ?thesis
      by (auto simp add: new_calls_def)
  qed
qed

lemma bpu_probe_counts:
  assumes bp: "btb_probe C (btb u) pc (btb_entry p) = (st, ent, b)"
    and pr: "priv_in_range priv u"
    and valid: "ap u \<noteq> None \<Longrightarrow> st \<noteq> BPU_MISS \<Longrightarrow> btb_entry_at C b ent \<noteq> None"
  shows "\<exists>p' u'. bpu_probe C u pc p priv = Inr (p', u')
           \<and> priv_in_range priv u'
           \<and> btb_probes (stats_at u' priv) = btb_probes (stats_at u priv) + 1
           \<and> btb_hits (stats_at u' priv)
               = btb_hits (stats_at u priv) + (if st = BPU_HIT then 1 else 0)"
proof -
  from bpu_probe_returns [OF bp pr valid] obtain p' u' where
    r: "bpu_probe C u pc p priv = Inr (p', u')" and
    s: "stats u' = (stats u)[nat priv := incr_btb_probes
          (if st = BPU_HIT then incr_btb_hits (stats u ! nat priv) else stats u ! nat priv)]"
    by blast
  from s pr have "priv_in_range priv u'" by (simp add: priv_in_range_def)
  moreover from s priv_in_range_nat [OF pr]
  have "btb_probes (stats_at u' priv) = btb_probes (stats_at u priv) + 1"
    by (simp add: stats_at_def incr_btb_probes_def incr_btb_hits_def)
  moreover from s priv_in_range_nat [OF pr]
  have "btb_hits (stats_at u' priv)
          = btb_hits (stats_at u priv) + (if st = BPU_HIT then 1 else 0)"
    by (simp add: stats_at_def incr_btb_probes_def incr_btb_hits_def)
  ultimately show ?thesis using r by blast
qed

lemma hit_gives_entryD:
  assumes "hit_gives_entry C" and "btb_probe C b pc old = (st, ent, b')" and "st \<noteq> BPU_MISS"
  shows "btb_entry_at C b' ent \<noteq> None"
  using assms unfolding hit_gives_entry_def by blast

text \<open>A counter below its maximum grows by one, read as a number; at the maximum it wraps.\<close>

lemma unat_incr:
  fixes x :: "'c::len word"
  assumes "unat x + 1 < 2 ^ LENGTH('c)"
  shows "unat (x + 1) = unat x + 1"
  using assms by (simp add: unat_word_ariths)

lemma unat_incr_mod:
  fixes x :: "'c::len word"
  shows "unat (x + 1) = (unat x + 1) mod 2 ^ LENGTH('c)"
  by (simp add: unat_word_ariths)

text \<open>
  A sequence of probes while the probe counter has room: both counters, read as numbers,
  follow the calls. The hit counter needs no room of its own, since it starts at or below
  the probe counter and grows no faster.
\<close>

lemma bpu_probe_seq_counts:
  fixes u :: "('btb, 'ap, 'w, 'c::len) BranchPredUnit"
  assumes "hit_gives_entry C" and "priv_in_range priv u"
    and "unat (btb_hits (stats_at u priv)) \<le> unat (btb_probes (stats_at u priv))"
    and "unat (btb_probes (stats_at u priv)) + length pcs < 2 ^ LENGTH('c)"
  shows "\<exists>p' u'. bpu_probe_seq C u pcs p priv = Inr (p', u')
           \<and> priv_in_range priv u'
           \<and> unat (btb_probes (stats_at u' priv))
               = unat (btb_probes (stats_at u priv)) + length pcs
           \<and> unat (btb_hits (stats_at u priv)) \<le> unat (btb_hits (stats_at u' priv))
           \<and> unat (btb_hits (stats_at u' priv))
               \<le> unat (btb_hits (stats_at u priv)) + length pcs"
  using assms(2,3,4)
proof (induction pcs arbitrary: u p)
  case Nil
  then show ?case by simp
next
  case (Cons pc pcs)
  obtain st ent b where bp: "btb_probe C (btb u) pc (btb_entry p) = (st, ent, b)"
    by (cases "btb_probe C (btb u) pc (btb_entry p)") auto
  have valid: "ap u \<noteq> None \<Longrightarrow> st \<noteq> BPU_MISS \<Longrightarrow> btb_entry_at C b ent \<noteq> None"
    using hit_gives_entryD [OF assms(1) bp] by simp
  from bpu_probe_counts [OF bp Cons.prems(1) valid] obtain p1 u1 where
    r1: "bpu_probe C u pc p priv = Inr (p1, u1)" and pr1: "priv_in_range priv u1" and
    c1: "btb_probes (stats_at u1 priv) = btb_probes (stats_at u priv) + 1" and
    h1: "btb_hits (stats_at u1 priv)
           = btb_hits (stats_at u priv) + (if st = BPU_HIT then 1 else 0)"
    by blast
  from Cons.prems(3) have room: "unat (btb_probes (stats_at u priv)) + 1 < 2 ^ LENGTH('c)"
    by simp
  from c1 unat_incr [OF room]
  have n1: "unat (btb_probes (stats_at u1 priv)) = unat (btb_probes (stats_at u priv)) + 1"
    by simp
  from room Cons.prems(2) have "unat (btb_hits (stats_at u priv)) + 1 < 2 ^ LENGTH('c)"
    by simp
  from h1 unat_incr [OF this]
  have m1: "unat (btb_hits (stats_at u1 priv))
              = unat (btb_hits (stats_at u priv)) + (if st = BPU_HIT then 1 else 0)"
    by simp
  from n1 m1 Cons.prems(2)
  have le1: "unat (btb_hits (stats_at u1 priv)) \<le> unat (btb_probes (stats_at u1 priv))"
    by simp
  from n1 Cons.prems(3)
  have room1: "unat (btb_probes (stats_at u1 priv)) + length pcs < 2 ^ LENGTH('c)"
    by simp
  from Cons.IH [OF pr1 le1 room1, of p1] obtain p' u' where
    r2: "bpu_probe_seq C u1 pcs p1 priv = Inr (p', u')" and pr2: "priv_in_range priv u'" and
    c2: "unat (btb_probes (stats_at u' priv))
           = unat (btb_probes (stats_at u1 priv)) + length pcs" and
    h2: "unat (btb_hits (stats_at u1 priv)) \<le> unat (btb_hits (stats_at u' priv))" and
    h3: "unat (btb_hits (stats_at u' priv))
           \<le> unat (btb_hits (stats_at u1 priv)) + length pcs"
    by blast
  have "bpu_probe_seq C u (pc # pcs) p priv = Inr (p', u')"
    using r1 r2 by simp
  moreover have "unat (btb_probes (stats_at u' priv))
                   = unat (btb_probes (stats_at u priv)) + length (pc # pcs)"
    using n1 c2 by simp
  moreover have "unat (btb_hits (stats_at u priv)) \<le> unat (btb_hits (stats_at u' priv))"
    using m1 h2 by (simp split: if_splits)
  moreover have "unat (btb_hits (stats_at u' priv))
                   \<le> unat (btb_hits (stats_at u priv)) + length (pc # pcs)"
    using m1 h3 by (simp split: if_splits)
  ultimately show ?case using pr2 by blast
qed

text \<open>Without room: the probe counter is the number of calls modulo its range.\<close>

lemma bpu_probe_seq_probes_mod:
  fixes u :: "('btb, 'ap, 'w, 'c::len) BranchPredUnit"
  assumes "hit_gives_entry C" and "priv_in_range priv u"
  shows "\<exists>p' u'. bpu_probe_seq C u pcs p priv = Inr (p', u')
           \<and> priv_in_range priv u'
           \<and> unat (btb_probes (stats_at u' priv))
               = (unat (btb_probes (stats_at u priv)) + length pcs) mod 2 ^ LENGTH('c)"
  using assms(2)
proof (induction pcs arbitrary: u p)
  case Nil
  then show ?case by (simp add: unsigned_less)
next
  case (Cons pc pcs)
  obtain st ent b where bp: "btb_probe C (btb u) pc (btb_entry p) = (st, ent, b)"
    by (cases "btb_probe C (btb u) pc (btb_entry p)") auto
  have valid: "ap u \<noteq> None \<Longrightarrow> st \<noteq> BPU_MISS \<Longrightarrow> btb_entry_at C b ent \<noteq> None"
    using hit_gives_entryD [OF assms(1) bp] by simp
  from bpu_probe_counts [OF bp Cons.prems valid] obtain p1 u1 where
    r1: "bpu_probe C u pc p priv = Inr (p1, u1)" and pr1: "priv_in_range priv u1" and
    c1: "btb_probes (stats_at u1 priv) = btb_probes (stats_at u priv) + 1"
    by blast
  from Cons.IH [OF pr1, of p1] obtain p' u' where
    r2: "bpu_probe_seq C u1 pcs p1 priv = Inr (p', u')" and pr2: "priv_in_range priv u'" and
    c2: "unat (btb_probes (stats_at u' priv))
           = (unat (btb_probes (stats_at u1 priv)) + length pcs) mod 2 ^ LENGTH('c)"
    by blast
  have "bpu_probe_seq C u (pc # pcs) p priv = Inr (p', u')"
    using r1 r2 by simp
  moreover have "unat (btb_probes (stats_at u' priv))
                   = (unat (btb_probes (stats_at u priv)) + length (pc # pcs)) mod 2 ^ LENGTH('c)"
    using c1 c2 by (simp add: unat_incr_mod mod_simps)
  ultimately show ?case using pr2 by blast
qed

lemma c_and_hit:
  "probe_status a \<Longrightarrow> probe_status b \<Longrightarrow>
     (c_and a b = BPU_HIT \<longleftrightarrow> a = BPU_HIT \<and> b = BPU_HIT)"
  by (auto simp add: c_and_def probe_status_def BPU_HIT_def BPU_MISS_def)

lemma c_and_hit_nonzero: "c_and a b = BPU_HIT \<longleftrightarrow> a \<noteq> BPU_MISS \<and> b \<noteq> BPU_MISS"
  by (simp add: c_and_def BPU_HIT_def BPU_MISS_def)

lemma probe_status_HIT: "probe_status BPU_HIT"
  by (simp add: probe_status_def)

text \<open>
  The packet that \<open>bpu_probe\<close> returns holds statuses that are HIT or MISS when the
  collaborators answer with such statuses.
\<close>

lemma c_and_probe_status: "probe_status (c_and a b)"
  by (simp add: c_and_def probe_status_def BPU_HIT_def BPU_MISS_def)

lemma bpu_probe_response_statuses:
  assumes "btb_probe C (btb u) pc (btb_entry p) = (st, ent, b)"
    and "priv_in_range priv u"
    and "ap u \<noteq> None \<Longrightarrow> st \<noteq> BPU_MISS \<Longrightarrow> btb_entry_at C b ent \<noteq> None"
    and "probe_status st"
    and "\<And>a. ap u = Some a \<Longrightarrow> probe_status (fst (adaptive_predictor_probe C a pc))"
  shows "\<exists>p' u'. bpu_probe C u pc p priv = Inr (p', u')
           \<and> probe_status (btb_probe_status p') \<and> probe_status (ap_probe_status p')
           \<and> probe_status (bpu_probe_status p')"
proof -
  from bpu_probe_returns [OF assms(1,2,3)] obtain p' u' where
    r: "bpu_probe C u pc p priv = Inr (p', u')" and
    s: "btb_probe_status p' = st" and
    c: "bpu_probe_status p' = c_and st (ap_probe_status p')" and
    a: "ap_probe_status p' =
          (case ap u of
             None \<Rightarrow> BPU_HIT
           | Some a \<Rightarrow>
               if st = BPU_MISS \<or> (\<exists>e. btb_entry_at C b ent = Some e \<and> type e = BRANCH_COND)
               then fst (adaptive_predictor_probe C a pc) else BPU_HIT)"
    by blast
  from a assms(5) have "probe_status (ap_probe_status p')"
    by (simp add: probe_status_HIT split: option.splits)
  with r s c assms(4) show ?thesis
    by (auto simp add: c_and_probe_status)
qed

subsection \<open>Auxiliary facts about bpu\_add and bpu\_update\<close>

lemma probe_status_nonzero: "probe_status s \<Longrightarrow> s \<noteq> BPU_MISS \<longleftrightarrow> s = BPU_HIT"
  by (auto simp add: probe_status_def BPU_HIT_def BPU_MISS_def)

lemma bpu_add_returns:
  assumes "btb_probe_status p = BPU_MISS \<Longrightarrow> priv_in_range priv u"
  shows "\<exists>u'. bpu_add C u pc ty p priv = Inr u'
           \<and> btb u' = (if btb_probe_status p = BPU_MISS then btb_add C (btb u) pc ty else btb u)
           \<and> stats u' = (if btb_probe_status p = BPU_MISS
                          then (stats u)[nat priv := incr_btb_inserts (stats u ! nat priv)]
                          else stats u)
           \<and> ap u' = (case ap u of
                         None \<Rightarrow> None
                       | Some a \<Rightarrow>
                           if ty = BRANCH_COND \<and> ap_probe_status p = BPU_MISS
                           then Some (adaptive_predictor_add C a pc) else Some a)
           \<and> new_calls u u' =
                (if btb_probe_status p = BPU_MISS then [Call_btb_add pc ty] else [])
                @ (if ap u \<noteq> None \<and> ty = BRANCH_COND \<and> ap_probe_status p = BPU_MISS
                   then [Call_ap_add pc] else [])"
proof (cases "btb_probe_status p = BPU_MISS")
  case True
  with assms have "priv_in_range priv u" by simp
  then have r: "priv_in_range priv
      (u\<lparr>btb := btb_add C (btb u) pc ty, calls := calls u @ [Call_btb_add pc ty]\<rparr>)"
    by (simp add: priv_in_range_def)
  from True show ?thesis
    by (cases "ap u")
       (simp_all add: bpu_add_def stats_incr_in_range [OF r] logged_def new_calls_def
          BPU_MISS_def)
next
  case False
  then show ?thesis
    by (cases "ap u") (simp_all add: bpu_add_def logged_def new_calls_def BPU_MISS_def)
qed

lemma bpu_update_returns:
  assumes "btb_probe_status p \<noteq> BPU_MISS \<Longrightarrow> priv_in_range priv u"
  shows "\<exists>u'. bpu_update C u pc tgt prd ty p priv = Inr u'
           \<and> btb u' = (if btb_probe_status p \<noteq> BPU_MISS
                        then collaborators.btb_update C (btb u) (btb_entry p) tgt prd ty
                        else btb u)
           \<and> stats u' = (if btb_probe_status p \<noteq> BPU_MISS
                          then (stats u)[nat priv := incr_btb_updates (stats u ! nat priv)]
                          else stats u)
           \<and> ap u' = (case ap u of
                         None \<Rightarrow> None
                       | Some a \<Rightarrow>
                           if ty = BRANCH_COND \<and> ap_probe_status p \<noteq> BPU_MISS
                           then Some (adaptive_predictor_update C a pc prd) else Some a)
           \<and> new_calls u u' =
                (if btb_probe_status p \<noteq> BPU_MISS
                 then [Call_btb_update (btb_entry p) tgt prd ty] else [])
                @ (if ap u \<noteq> None \<and> ty = BRANCH_COND \<and> ap_probe_status p \<noteq> BPU_MISS
                   then [Call_ap_update pc prd] else [])"
proof (cases "btb_probe_status p \<noteq> BPU_MISS")
  case True
  with assms have "priv_in_range priv u" by simp
  then have r: "priv_in_range priv
      (u\<lparr>btb := collaborators.btb_update C (btb u) (btb_entry p) tgt prd ty,
         calls := calls u @ [Call_btb_update (btb_entry p) tgt prd ty]\<rparr>)"
    by (simp add: priv_in_range_def)
  from True show ?thesis
    by (cases "ap u")
       (simp_all add: bpu_update_def stats_incr_in_range [OF r] logged_def new_calls_def
          BPU_MISS_def)
next
  case False
  then show ?thesis
    by (cases "ap u") (simp_all add: bpu_update_def logged_def new_calls_def BPU_MISS_def)
qed

lemma stats_at_incr:
  assumes "c \<longrightarrow> priv_in_range priv u"
    and "stats u' = (if c then (stats u)[nat priv := f (stats u ! nat priv)] else stats u)"
  shows "stats_at u' priv = (if c then f (stats_at u priv) else stats_at u priv)"
proof (cases c)
  case True
  with assms(1) have "nat priv < length (stats u)" by (simp add: priv_in_range_nat)
  with True assms(2) show ?thesis by (simp add: stats_at_def)
next
  case False
  with assms(2) show ?thesis by (simp add: stats_at_def)
qed

subsection \<open>The example collaborators keep the contract\<close>

lemma ex_slot_bounds:
  "ex_slot xs k n \<noteq> 0 \<Longrightarrow> n \<le> ex_slot xs k n \<and> ex_slot xs k n < n + length xs"
proof (induction xs arbitrary: n)
  case Nil
  then show ?case by simp
next
  case (Cons x xs)
  obtain k' v where x: "x = (k', v)" by (cases x)
  show ?case
  proof (cases "k' = k")
    case True
    with x show ?thesis by simp
  next
    case False
    with x Cons.prems have "ex_slot xs k (Suc n) \<noteq> 0" by simp
    from Cons.IH [OF this] False x show ?thesis by simp
  qed
qed

lemma ex_hit_gives_entry: "hit_gives_entry ex_collaborators"
  unfolding hit_gives_entry_def
proof (intro allI impI)
  fix b pc old st ent b'
  assume bp: "btb_probe ex_collaborators b pc old = (st, ent, b')" and ne: "st \<noteq> BPU_MISS"
  from bp ne have s: "ex_slot b pc 1 \<noteq> 0" and e: "ent = ex_slot b pc 1" and b: "b' = b"
    by (auto simp add: ex_collaborators_def ex_btb_probe_def split: if_splits)
  from ex_slot_bounds [OF s] e have "0 < ent \<and> ent \<le> length b" by simp
  with b show "btb_entry_at ex_collaborators b' ent \<noteq> None"
    by (simp add: ex_collaborators_def ex_btb_entry_at_def)
qed

text \<open>
  The wrap itself: with the probe counter at its maximum and five hits counted, one more
  probe (a miss) leaves the probe counter at 0, below the hit counter.
\<close>

lemma ex_probe_counter_wraps:
  "\<exists>p' u'.
     bpu_probe ex_collaborators
       (ex_adaptive\<lparr>stats := [\<lparr>btb_probes = - 1, btb_hits = 5, btb_inserts = 0,
                                  btb_updates = 0\<rparr>]\<rparr>) 0x9000 ex_pkt 0 = Inr (p', u')
     \<and> btb_probe_status p' = BPU_MISS
     \<and> btb_probes (stats_at u' 0) = 0 \<and> btb_hits (stats_at u' 0) = 5"
  by (simp add: bpu_probe_def probe_lookup_def probe_count_def probe_adaptive_def
      stats_incr_def stats_at_def logged_def incr_btb_hits_def incr_btb_probes_def c_and_def
      ex_defs)

text \<open>
  With the example buffer, which leaves the target of a new entry at 0: an unconditional
  branch is added to an empty bimodal unit, the next probe of it hits, and the target
  returned for the entry is 0.
\<close>

lemma ex_unconditional_after_add:
  "\<exists>u1 p2 u2.
     bpu_add ex_collaborators (ex_bimodal\<lparr>btb := []\<rparr>) 0x4000 BRANCH_UNCOND ex_pkt 0 = Inr u1
     \<and> bpu_probe ex_collaborators u1 0x4000 ex_pkt 0 = Inr (p2, u2)
     \<and> btb_probe_status p2 = BPU_HIT
     \<and> bpu_get_target ex_collaborators u2 0x4000 (btb_entry p2) = Inr (0, u2)"
  by (simp add: bpu_add_def bpu_probe_def probe_lookup_def probe_count_def probe_adaptive_def
      bpu_get_target_def stats_incr_def logged_def incr_btb_inserts_def incr_btb_hits_def
      incr_btb_probes_def c_and_def ex_defs)

subsection \<open>bpu\_get\_target\<close>

text \<open>
  Claim C3, as stated: for an entry of type UNCONDITIONAL the result is the stored target and
  never the sentinel 0. The first half holds; the second fails for an entry whose stored
  target is 0 (the state in which the example buffer leaves a new entry until its first
  update): the function returns that 0, which the caller cannot tell from the sentinel.
  The example is the entry for the branch at 0x6000, in a unit with an adaptive predictor.
\<close>

theorem get_target_uncond_zero_target:
  "btb_entry_at ex_collaborators (btb ex_adaptive) 4
     = Some \<lparr>target = 0, type = BRANCH_UNCOND, pred = 1\<rparr>
   \<and> bpu_get_target ex_collaborators ex_adaptive 0x6000 4 = Inr (0, ex_adaptive)"
  by (simp add: bpu_get_target_def ex_defs)

text \<open>
  Claim C3, amended: for every entry of type UNCONDITIONAL, \<open>bpu_get_target\<close> returns
  the entry's stored target and leaves the unit as it is, whatever the adaptive predictor
  (present or not, in any state) and whatever the entry's counter; the result is 0 exactly
  when the stored target is 0.
\<close>

theorem get_target_unconditional:
  assumes "btb_entry_at C (btb u) ptr = Some e" and "type e = BRANCH_UNCOND"
  shows "bpu_get_target C u pc ptr = Inr (target e, u)
         \<and> (bpu_get_target C u pc ptr = Inr (0, u) \<longleftrightarrow> target e = 0)"
  using assms by (auto simp add: bpu_get_target_def)

text \<open>The unconditional branch at 0x4000 with target 0x5000 and counter 0, adaptive mode.\<close>

theorem get_target_unconditional_witness:
  "btb_entry_at ex_collaborators (btb ex_adaptive) 1
     = Some \<lparr>target = 0x5000, type = BRANCH_UNCOND, pred = 0\<rparr>
   \<and> type \<lparr>target = 0x5000 :: 64 word, type = BRANCH_UNCOND, pred = 0\<rparr> = BRANCH_UNCOND
   \<and> bpu_get_target ex_collaborators ex_adaptive 0x4000 1 = Inr (0x5000, ex_adaptive)
   \<and> bpu_get_target ex_collaborators ex_adaptive 0x4000 1 \<noteq> Inr (0, ex_adaptive)"
proof -
  have h1: "btb_entry_at ex_collaborators (btb ex_adaptive) 1
     = Some \<lparr>target = 0x5000, type = BRANCH_UNCOND, pred = 0\<rparr>"
    by (simp add: ex_defs)
  have h2: "type \<lparr>target = 0x5000 :: 64 word, type = BRANCH_UNCOND, pred = 0\<rparr> = BRANCH_UNCOND"
    by simp
  from get_target_unconditional [OF h1 h2, of "0x4000"] h1 h2 show ?thesis
    by simp
qed

text \<open>
  Claim C4, as stated: in bimodal mode the result is the stored target if and only if the
  counter is 2 or 3, and the sentinel 0 if and only if the counter is 0 or 1. For the
  conditional entry of the branch at 0x7000, with stored target 0 and counter 3, the result
  is 0 although the counter is neither 0 nor 1.
\<close>

theorem get_target_bimodal_zero_target:
  "ap ex_bimodal = None
   \<and> btb_entry_at ex_collaborators (btb ex_bimodal) 5
       = Some \<lparr>target = 0, type = BRANCH_COND, pred = 3\<rparr>
   \<and> bpu_get_target ex_collaborators ex_bimodal 0x7000 5 = Inr (0, ex_bimodal)"
  by (simp add: bpu_get_target_def ex_defs)

text \<open>
  Claim C4, amended: without an adaptive predictor, for every entry of type CONDITIONAL with
  counter \<open>v\<close> in 0..3, \<open>bpu_get_target\<close> returns the stored target if \<open>v\<close> is 2 or 3
  and 0 if \<open>v\<close> is 0 or 1; when the stored target is not 0 these are equivalences.
\<close>

theorem get_target_bimodal:
  assumes "btb_entry_at C (btb u) ptr = Some e" and "type e = BRANCH_COND"
    and "ap u = None" and "pred e \<in> {0, 1, 2, 3}"
  shows "\<exists>r. bpu_get_target C u pc ptr = Inr (r, u)
           \<and> r = (if pred e \<in> {2, 3} then target e else 0)
           \<and> (target e = 0
              \<or> ((r = target e \<longleftrightarrow> pred e \<in> {2, 3}) \<and> (r = 0 \<longleftrightarrow> pred e \<in> {0, 1})))"
  using assms by (auto simp add: bpu_get_target_def)

text \<open>The conditional branch at 0x3000 with target 0x3800 and counter 3, bimodal mode.\<close>

theorem get_target_bimodal_witness:
  "btb_entry_at ex_collaborators (btb ex_bimodal) 2
     = Some \<lparr>target = 0x3800, type = BRANCH_COND, pred = 3\<rparr>
   \<and> ap ex_bimodal = None
   \<and> bpu_get_target ex_collaborators ex_bimodal 0x3000 2 = Inr (0x3800, ex_bimodal)"
proof -
  have h1: "btb_entry_at ex_collaborators (btb ex_bimodal) 2
     = Some \<lparr>target = 0x3800, type = BRANCH_COND, pred = 3\<rparr>"
    by (simp add: ex_defs)
  have h2: "type \<lparr>target = 0x3800 :: 64 word, type = BRANCH_COND, pred = 3\<rparr> = BRANCH_COND"
    by simp
  have h3: "ap ex_bimodal = None"
    by (simp add: ex_defs)
  have h4: "pred \<lparr>target = 0x3800 :: 64 word, type = BRANCH_COND, pred = 3\<rparr> \<in> {0, 1, 2, 3}"
    by simp
  from get_target_bimodal [OF h1 h2 h3 h4, of "0x3000"] h1 h3 show ?thesis
    by simp
qed

text \<open>
  Claim C5: with an adaptive predictor, for every entry of type CONDITIONAL the result is the
  stored target when the predictor's verdict for \<open>pc\<close> is taken (nonzero) and 0 when it
  is not taken; the entry's own counter does not occur in the result. The only collaborator
  call is the request for the prediction.
\<close>

theorem get_target_adaptive:
  assumes "btb_entry_at C (btb u) ptr = Some e" and "type e = BRANCH_COND"
    and "ap u = Some a" and "adaptive_predictor_get_prediction C a pc = (v, a')"
  shows "\<exists>u'. bpu_get_target C u pc ptr = Inr (if v \<noteq> 0 then target e else 0, u')
           \<and> new_calls u u' = [Call_ap_get_prediction pc]"
  using assms by (simp add: bpu_get_target_def new_calls_def logged_def)

text \<open>
  The branch at 0x3000: its entry's counter is 3, the predictor says not taken, the result
  is 0.
\<close>

theorem get_target_adaptive_witness:
  "btb_entry_at ex_collaborators (btb ex_adaptive) 2
     = Some \<lparr>target = 0x3800, type = BRANCH_COND, pred = 3\<rparr>
   \<and> ap ex_adaptive = Some [(0x3000, 0), (0x1000, 3)]
   \<and> adaptive_predictor_get_prediction ex_collaborators [(0x3000, 0), (0x1000, 3)] 0x3000
       = (0, [(0x3000, 0), (0x1000, 3)])
   \<and> (\<exists>u'. bpu_get_target ex_collaborators ex_adaptive 0x3000 2 = Inr (0, u'))"
proof -
  have h1: "btb_entry_at ex_collaborators (btb ex_adaptive) 2
     = Some \<lparr>target = 0x3800, type = BRANCH_COND, pred = 3\<rparr>"
    by (simp add: ex_defs)
  have h2: "type \<lparr>target = 0x3800 :: 64 word, type = BRANCH_COND, pred = 3\<rparr> = BRANCH_COND"
    by simp
  have h3: "ap ex_adaptive = Some [(0x3000, 0), (0x1000, 3)]"
    by (simp add: ex_defs)
  have h4: "adaptive_predictor_get_prediction ex_collaborators [(0x3000, 0), (0x1000, 3)] 0x3000
       = (0, [(0x3000, 0), (0x1000, 3)])"
    by (simp add: ex_defs)
  from get_target_adaptive [OF h1 h2 h3 h4] h1 h3 h4 show ?thesis
    by auto
qed

text \<open>
  Claim C9: for every entry whose type tag is neither UNCONDITIONAL nor CONDITIONAL the call
  ends in the failed assertion and returns no address. (\<^verbatim>\<open>assert\<close> is taken as enabled:
  nothing in \<^verbatim>\<open>bpu.c\<close> defines \<^verbatim>\<open>NDEBUG\<close>.)
\<close>

theorem get_target_other_type_asserts:
  assumes "btb_entry_at C (btb u) ptr = Some e"
    and "type e \<noteq> BRANCH_UNCOND" and "type e \<noteq> BRANCH_COND"
  shows "bpu_get_target C u pc ptr = Inl Assertion_failed"
  using assms by (cases "type e") (simp_all add: bpu_get_target_def)

text \<open>The entry of the branch at 0x8000, whose tag is 7.\<close>

theorem get_target_other_type_asserts_witness:
  "btb_entry_at ex_collaborators (btb ex_adaptive) 6
     = Some \<lparr>target = 0x8800, type = BRANCH_OTHER 7, pred = 3\<rparr>
   \<and> bpu_get_target ex_collaborators ex_adaptive 0x8000 6 = Inl Assertion_failed"
proof -
  have h1: "btb_entry_at ex_collaborators (btb ex_adaptive) 6
     = Some \<lparr>target = 0x8800, type = BRANCH_OTHER 7, pred = 3\<rparr>"
    by (simp add: ex_defs)
  have h2: "type \<lparr>target = 0x8800 :: 64 word, type = BRANCH_OTHER 7, pred = 3\<rparr> \<noteq> BRANCH_UNCOND"
    by simp
  have h3: "type \<lparr>target = 0x8800 :: 64 word, type = BRANCH_OTHER 7, pred = 3\<rparr> \<noteq> BRANCH_COND"
    by simp
  from get_target_other_type_asserts [OF h1 h2 h3, of "0x8000"] h1 show ?thesis
    by simp
qed

subsection \<open>bpu\_probe\<close>

text \<open>
  The theorems about \<open>bpu_probe\<close> name the result of the lookup in the branch target
  buffer (\<open>st\<close>, \<open>ent\<close>, \<open>b\<close>) and assume what C needs for the call to be defined:
  the privilege level indexes the statistics array, and a pointer that is dereferenced has
  an entry behind it. Under these the call returns.
\<close>

text \<open>
  Claim C1: \<open>ap_probe_status\<close> starts as HIT; the adaptive predictor is queried, and its
  answer stored in \<open>ap_probe_status\<close>, if and only if the unit has an adaptive predictor
  and the lookup missed or the entry found is of type CONDITIONAL; otherwise
  \<open>ap_probe_status\<close> is still HIT when the call returns.
\<close>

theorem probe_consults_adaptive_predictor:
  assumes "btb_probe C (btb u) pc (btb_entry p) = (st, ent, b)"
    and "priv_in_range priv u"
    and "ap u \<noteq> None \<Longrightarrow> st \<noteq> BPU_MISS \<Longrightarrow> btb_entry_at C b ent \<noteq> None"
  shows "\<exists>p' u'. bpu_probe C u pc p priv = Inr (p', u')
           \<and> (Call_ap_probe pc \<in> set (new_calls u u') \<longleftrightarrow>
                ap u \<noteq> None
                \<and> (st = BPU_MISS
                    \<or> (\<exists>e. btb_entry_at C b ent = Some e \<and> type e = BRANCH_COND)))
           \<and> ap_probe_status p' =
               (case ap u of
                  None \<Rightarrow> BPU_HIT
                | Some a \<Rightarrow>
                    if Call_ap_probe pc \<in> set (new_calls u u')
                    then fst (adaptive_predictor_probe C a pc) else BPU_HIT)"
proof -
  from bpu_probe_returns [OF assms] obtain p' u' where
    r: "bpu_probe C u pc p priv = Inr (p', u')" and
    c: "new_calls u u' =
          (if ap u \<noteq> None
              \<and> (st = BPU_MISS \<or> (\<exists>e. btb_entry_at C b ent = Some e \<and> type e = BRANCH_COND))
           then [Call_btb_probe pc, Call_ap_probe pc] else [Call_btb_probe pc])" and
    a: "ap_probe_status p' =
          (case ap u of
             None \<Rightarrow> BPU_HIT
           | Some a \<Rightarrow>
               if st = BPU_MISS \<or> (\<exists>e. btb_entry_at C b ent = Some e \<and> type e = BRANCH_COND)
               then fst (adaptive_predictor_probe C a pc) else BPU_HIT)"
    by blast
  from c have m: "Call_ap_probe pc \<in> set (new_calls u u') \<longleftrightarrow>
      ap u \<noteq> None
      \<and> (st = BPU_MISS \<or> (\<exists>e. btb_entry_at C b ent = Some e \<and> type e = BRANCH_COND))"
    by (simp split: if_splits)
  from a m have "ap_probe_status p' =
      (case ap u of
         None \<Rightarrow> BPU_HIT
       | Some a \<Rightarrow>
           if Call_ap_probe pc \<in> set (new_calls u u')
           then fst (adaptive_predictor_probe C a pc) else BPU_HIT)"
    by (simp split: option.splits)
  with r m show ?thesis by blast
qed

text \<open>
  Adaptive mode, the conditional branch at 0x7000: the buffer hits, the predictor is asked
  and does not know the branch, so \<open>ap_probe_status\<close> is overwritten with MISS.
\<close>

theorem probe_consults_adaptive_predictor_witness:
  "btb_probe ex_collaborators (btb ex_adaptive) 0x7000 (btb_entry ex_pkt)
     = (BPU_HIT, 5, ex_btb_contents)
   \<and> priv_in_range 3 ex_adaptive
   \<and> btb_entry_at ex_collaborators ex_btb_contents 5
       = Some \<lparr>target = 0, type = BRANCH_COND, pred = 3\<rparr>
   \<and> (\<exists>p' u'. bpu_probe ex_collaborators ex_adaptive 0x7000 ex_pkt 3 = Inr (p', u')
         \<and> Call_ap_probe 0x7000 \<in> set (new_calls ex_adaptive u')
         \<and> ap_probe_status p' = BPU_MISS)"
proof -
  have h1: "btb_probe ex_collaborators (btb ex_adaptive) 0x7000 (btb_entry ex_pkt)
     = (BPU_HIT, 5, ex_btb_contents)"
    by (simp add: ex_defs)
  have h2: "priv_in_range 3 ex_adaptive"
    by (simp add: priv_in_range_def ex_defs)
  have e: "btb_entry_at ex_collaborators ex_btb_contents 5
       = Some \<lparr>target = 0, type = BRANCH_COND, pred = 3\<rparr>"
    by (simp add: ex_defs)
  have h3: "ap ex_adaptive \<noteq> None \<Longrightarrow> BPU_HIT \<noteq> BPU_MISS
              \<Longrightarrow> btb_entry_at ex_collaborators ex_btb_contents 5 \<noteq> None"
    using e by simp
  have a: "ap ex_adaptive = Some [(0x3000, 0), (0x1000, 3)]"
    by (simp add: ex_defs)
  have q: "fst (adaptive_predictor_probe ex_collaborators [(0x3000, 0), (0x1000, 3)] 0x7000)
             = BPU_MISS"
    by (simp add: ex_defs)
  from probe_consults_adaptive_predictor [OF h1 h2 h3] obtain p' u' where
    "bpu_probe ex_collaborators ex_adaptive 0x7000 ex_pkt 3 = Inr (p', u')"
    "Call_ap_probe 0x7000 \<in> set (new_calls ex_adaptive u')"
    "ap_probe_status p' = BPU_MISS"
    using e a q by auto
  with h1 h2 e show ?thesis by blast
qed

text \<open>
  Claim C2: the returned \<open>bpu_probe_status\<close> is HIT if and only if \<open>btb_probe_status\<close>
  and \<open>ap_probe_status\<close> are both HIT. The statuses are C ints and line 98 is
  \<^verbatim>\<open>&&\<close>, so the statement is about statuses that are HIT or MISS, as both
  collaborators are taken to answer; \<open>c_and_hit_nonzero\<close> is the fact for arbitrary ints.
\<close>

theorem probe_status_is_conjunction:
  assumes "btb_probe C (btb u) pc (btb_entry p) = (st, ent, b)"
    and "priv_in_range priv u"
    and "ap u \<noteq> None \<Longrightarrow> st \<noteq> BPU_MISS \<Longrightarrow> btb_entry_at C b ent \<noteq> None"
    and "probe_status st"
    and "\<And>a. ap u = Some a \<Longrightarrow> probe_status (fst (adaptive_predictor_probe C a pc))"
  shows "\<exists>p' u'. bpu_probe C u pc p priv = Inr (p', u')
           \<and> (bpu_probe_status p' = BPU_HIT \<longleftrightarrow>
                btb_probe_status p' = BPU_HIT \<and> ap_probe_status p' = BPU_HIT)"
proof -
  from bpu_probe_returns [OF assms(1,2,3)] obtain p' u' where
    r: "bpu_probe C u pc p priv = Inr (p', u')" and
    s: "btb_probe_status p' = st" and
    c: "bpu_probe_status p' = c_and st (ap_probe_status p')" and
    a: "ap_probe_status p' =
          (case ap u of
             None \<Rightarrow> BPU_HIT
           | Some a \<Rightarrow>
               if st = BPU_MISS \<or> (\<exists>e. btb_entry_at C b ent = Some e \<and> type e = BRANCH_COND)
               then fst (adaptive_predictor_probe C a pc) else BPU_HIT)"
    by blast
  from a assms(5) have "probe_status (ap_probe_status p')"
    by (simp add: probe_status_HIT split: option.splits)
  from c_and_hit [OF assms(4) this] c s
  have "bpu_probe_status p' = BPU_HIT \<longleftrightarrow>
          btb_probe_status p' = BPU_HIT \<and> ap_probe_status p' = BPU_HIT"
    by simp
  with r show ?thesis by blast
qed

text \<open>The same probe of 0x7000: HIT in the buffer, MISS in the predictor, MISS overall.\<close>

theorem probe_status_is_conjunction_witness:
  "btb_probe ex_collaborators (btb ex_adaptive) 0x7000 (btb_entry ex_pkt)
     = (BPU_HIT, 5, ex_btb_contents)
   \<and> priv_in_range 3 ex_adaptive
   \<and> btb_entry_at ex_collaborators ex_btb_contents 5
       = Some \<lparr>target = 0, type = BRANCH_COND, pred = 3\<rparr>
   \<and> probe_status BPU_HIT
   \<and> ap ex_adaptive = Some [(0x3000, 0), (0x1000, 3)]
   \<and> probe_status (fst (adaptive_predictor_probe ex_collaborators
                          [(0x3000, 0), (0x1000, 3)] 0x7000))
   \<and> (\<exists>p' u'. bpu_probe ex_collaborators ex_adaptive 0x7000 ex_pkt 3 = Inr (p', u')
         \<and> btb_probe_status p' = BPU_HIT \<and> ap_probe_status p' = BPU_MISS
         \<and> bpu_probe_status p' = BPU_MISS)"
proof -
  have h1: "btb_probe ex_collaborators (btb ex_adaptive) 0x7000 (btb_entry ex_pkt)
     = (BPU_HIT, 5, ex_btb_contents)"
    by (simp add: ex_defs)
  have h2: "priv_in_range 3 ex_adaptive"
    by (simp add: priv_in_range_def ex_defs)
  have e: "btb_entry_at ex_collaborators ex_btb_contents 5
       = Some \<lparr>target = 0, type = BRANCH_COND, pred = 3\<rparr>"
    by (simp add: ex_defs)
  have h3: "ap ex_adaptive \<noteq> None \<Longrightarrow> BPU_HIT \<noteq> BPU_MISS
              \<Longrightarrow> btb_entry_at ex_collaborators ex_btb_contents 5 \<noteq> None"
    using e by simp
  have h4: "probe_status BPU_HIT"
    by (simp add: probe_status_def)
  have a: "ap ex_adaptive = Some [(0x3000, 0), (0x1000, 3)]"
    by (simp add: ex_defs)
  have q: "probe_status (fst (adaptive_predictor_probe ex_collaborators
                          [(0x3000, 0), (0x1000, 3)] 0x7000))"
    by (simp add: probe_status_def ex_defs)
  have h5: "\<And>a. ap ex_adaptive = Some a
              \<Longrightarrow> probe_status (fst (adaptive_predictor_probe ex_collaborators a 0x7000))"
    using a q by simp
  have v: "bpu_probe ex_collaborators ex_adaptive 0x7000 ex_pkt 3
             = Inr (\<lparr>bpu_probe_status = 0, btb_probe_status = 1, ap_probe_status = 0,
                       btb_entry = 5\<rparr>,
                    ex_adaptive\<lparr>stats := ex_stats[3 := \<lparr>btb_probes = 1, btb_hits = 1,
                                                          btb_inserts = 0, btb_updates = 0\<rparr>],
                                calls := [Call_btb_probe 0x7000, Call_ap_probe 0x7000]\<rparr>)"
    by (simp add: bpu_probe_def probe_lookup_def probe_count_def probe_adaptive_def
        entry_type_def stats_incr_def logged_def c_and_def incr_btb_hits_def
        incr_btb_probes_def ex_defs)
  from probe_status_is_conjunction [OF h1 h2 h3 h4 h5] v
  have "\<exists>p' u'. bpu_probe ex_collaborators ex_adaptive 0x7000 ex_pkt 3 = Inr (p', u')
         \<and> btb_probe_status p' = BPU_HIT \<and> ap_probe_status p' = BPU_MISS
         \<and> bpu_probe_status p' = BPU_MISS"
    by (simp add: BPU_HIT_def BPU_MISS_def)
  with h1 h2 e h4 a q show ?thesis by blast
qed

text \<open>
  Claim C8: a probe at privilege level \<open>priv\<close> adds one to \<open>btb_probes\<close> of that level,
  and one to \<open>btb_hits\<close> exactly when the lookup hit (both are \<^verbatim>\<open>++\<close> on a machine
  counter). After a sequence of probes at one level that leaves the probe counter room, so
  that it does not wrap, the probe counter has grown by the number of calls, the hit
  counter by no more, and hits stay at or below probes when they started so. From zeroed
  statistics the probe counter is the number of calls.
\<close>

theorem probe_counts_probes_and_hits:
  fixes u :: "('btb, 'ap, 'w, 'c::len) BranchPredUnit"
  assumes "hit_gives_entry C" and "priv_in_range priv u"
    and "btb_hits (stats_at u priv) \<le> btb_probes (stats_at u priv)"
    and "unat (btb_probes (stats_at u priv)) + length pcs < 2 ^ LENGTH('c)"
  shows "(\<exists>p' u'. bpu_probe C u pc p priv = Inr (p', u')
            \<and> btb_probes (stats_at u' priv) = btb_probes (stats_at u priv) + 1
            \<and> btb_hits (stats_at u' priv)
                = btb_hits (stats_at u priv)
                  + (if fst (btb_probe C (btb u) pc (btb_entry p)) = BPU_HIT then 1 else 0))
         \<and> (\<exists>p' u'. bpu_probe_seq C u pcs p priv = Inr (p', u')
            \<and> unat (btb_probes (stats_at u' priv))
                = unat (btb_probes (stats_at u priv)) + length pcs
            \<and> unat (btb_hits (stats_at u' priv))
                \<le> unat (btb_hits (stats_at u priv)) + length pcs
            \<and> btb_hits (stats_at u' priv) \<le> btb_probes (stats_at u' priv))"
proof -
  obtain st ent b where bp: "btb_probe C (btb u) pc (btb_entry p) = (st, ent, b)"
    by (cases "btb_probe C (btb u) pc (btb_entry p)") auto
  have valid: "ap u \<noteq> None \<Longrightarrow> st \<noteq> BPU_MISS \<Longrightarrow> btb_entry_at C b ent \<noteq> None"
    using hit_gives_entryD [OF assms(1) bp] by simp
  from bpu_probe_counts [OF bp assms(2) valid] bp
  have one: "\<exists>p' u'. bpu_probe C u pc p priv = Inr (p', u')
            \<and> btb_probes (stats_at u' priv) = btb_probes (stats_at u priv) + 1
            \<and> btb_hits (stats_at u' priv)
                = btb_hits (stats_at u priv)
                  + (if fst (btb_probe C (btb u) pc (btb_entry p)) = BPU_HIT then 1 else 0)"
    by auto
  from assms(3) have le: "unat (btb_hits (stats_at u priv)) \<le> unat (btb_probes (stats_at u priv))"
    by (simp add: word_le_nat_alt)
  from bpu_probe_seq_counts [OF assms(1,2) le assms(4), of p] obtain p' u' where
    r: "bpu_probe_seq C u pcs p priv = Inr (p', u')" and
    c: "unat (btb_probes (stats_at u' priv))
          = unat (btb_probes (stats_at u priv)) + length pcs" and
    h: "unat (btb_hits (stats_at u' priv)) \<le> unat (btb_hits (stats_at u priv)) + length pcs"
    by blast
  from c h le have "btb_hits (stats_at u' priv) \<le> btb_probes (stats_at u' priv)"
    by (simp add: word_le_nat_alt)
  with r c h one show ?thesis by blast
qed

text \<open>
  From zeroed statistics: one probe of 0x1000 (a hit), and the three probes 0x1000, 0x9000,
  0x4000 at level 0.
\<close>

theorem probe_counts_probes_and_hits_witness:
  "hit_gives_entry ex_collaborators
   \<and> priv_in_range 0 ex_adaptive
   \<and> btb_probes (stats_at ex_adaptive 0) = 0
   \<and> btb_hits (stats_at ex_adaptive 0) = 0
   \<and> unat (btb_probes (stats_at ex_adaptive 0)) + length [0x1000, 0x9000, 0x4000 :: 64 word]
       < 2 ^ LENGTH(64)
   \<and> fst (btb_probe ex_collaborators (btb ex_adaptive) 0x1000 (btb_entry ex_pkt)) = BPU_HIT
   \<and> (\<exists>p' u'. bpu_probe ex_collaborators ex_adaptive 0x1000 ex_pkt 0 = Inr (p', u')
         \<and> btb_probes (stats_at u' 0) = 1 \<and> btb_hits (stats_at u' 0) = 1)
   \<and> (\<exists>p' u'. bpu_probe_seq ex_collaborators ex_adaptive [0x1000, 0x9000, 0x4000] ex_pkt 0
                  = Inr (p', u')
         \<and> unat (btb_probes (stats_at u' 0)) = 3 \<and> unat (btb_hits (stats_at u' 0)) \<le> 3
         \<and> btb_hits (stats_at u' 0) \<le> btb_probes (stats_at u' 0))"
proof -
  have h2: "priv_in_range 0 ex_adaptive"
    by (simp add: priv_in_range_def ex_defs)
  have z1: "btb_probes (stats_at ex_adaptive 0) = 0"
    by (simp add: stats_at_def ex_defs)
  have z2: "btb_hits (stats_at ex_adaptive 0) = 0"
    by (simp add: stats_at_def ex_defs)
  have h3: "btb_hits (stats_at ex_adaptive 0) \<le> btb_probes (stats_at ex_adaptive 0)"
    using z1 z2 by simp
  have h4: "unat (btb_probes (stats_at ex_adaptive 0))
              + length [0x1000, 0x9000, 0x4000 :: 64 word] < 2 ^ LENGTH(64)"
    using z1 by simp
  have f: "fst (btb_probe ex_collaborators (btb ex_adaptive) 0x1000 (btb_entry ex_pkt)) = BPU_HIT"
    by (simp add: ex_defs)
  from probe_counts_probes_and_hits [where pc = "0x1000" and p = ex_pkt,
      OF ex_hit_gives_entry h2 h3 h4] z1 z2 f
  have "(\<exists>p' u'. bpu_probe ex_collaborators ex_adaptive 0x1000 ex_pkt 0 = Inr (p', u')
         \<and> btb_probes (stats_at u' 0) = 1 \<and> btb_hits (stats_at u' 0) = 1)
   \<and> (\<exists>p' u'. bpu_probe_seq ex_collaborators ex_adaptive [0x1000, 0x9000, 0x4000] ex_pkt 0
                  = Inr (p', u')
         \<and> unat (btb_probes (stats_at u' 0)) = 3 \<and> unat (btb_hits (stats_at u' 0)) \<le> 3
         \<and> btb_hits (stats_at u' 0) \<le> btb_probes (stats_at u' 0))"
    by (auto simp del: bpu_probe_seq.simps)
  with ex_hit_gives_entry h2 z1 z2 h4 f show ?thesis by blast
qed

text \<open>
  Claim C10: when the lookup missed, \<open>bpu_probe\<close> does not read through the entry
  pointer: the call returns whatever the pointer is, and its result is the same for every
  content \<open>m\<close> of the entry memory, also one with no entry at all. (With a status other
  than MISS and an adaptive predictor the entry is read, see \<open>bpu_probe_bad_pointer\<close>.)
\<close>

theorem probe_miss_reads_no_entry:
  assumes "btb_probe C (btb u) pc (btb_entry p) = (BPU_MISS, ent, b)"
    and "priv_in_range priv u"
  shows "(\<exists>p' u'. bpu_probe C u pc p priv = Inr (p', u'))
         \<and> bpu_probe (C\<lparr>btb_entry_at := m\<rparr>) u pc p priv = bpu_probe C u pc p priv"
proof -
  have v: "ap u \<noteq> None \<Longrightarrow> BPU_MISS \<noteq> BPU_MISS \<Longrightarrow> btb_entry_at C b ent \<noteq> None"
    by simp
  from bpu_probe_returns [OF assms v]
  have ret: "\<exists>p' u'. bpu_probe C u pc p priv = Inr (p', u')" by blast
  have pl: "probe_lookup (C\<lparr>btb_entry_at := m\<rparr>) u pc p = probe_lookup C u pc p"
    by (simp add: probe_lookup_def)
  have pa: "\<And>u'. probe_adaptive (C\<lparr>btb_entry_at := m\<rparr>) u' pc
                   (p\<lparr>ap_probe_status := BPU_HIT, btb_probe_status := BPU_MISS,
                       btb_entry := ent\<rparr>)
                 = probe_adaptive C u' pc
                   (p\<lparr>ap_probe_status := BPU_HIT, btb_probe_status := BPU_MISS,
                       btb_entry := ent\<rparr>)"
    by (simp add: probe_adaptive_def split: option.splits)
  have "bpu_probe (C\<lparr>btb_entry_at := m\<rparr>) u pc p priv = bpu_probe C u pc p priv"
    by (simp add: bpu_probe_def pl probe_lookup_eq [OF assms(1)] pa cong: sum.case_cong)
  with ret show ?thesis by blast
qed

text \<open>
  Adaptive mode, a probe of 0x9000, which the buffer does not hold: the pointer is null, and
  emptying the entry memory changes nothing.
\<close>

theorem probe_miss_reads_no_entry_witness:
  "btb_probe ex_collaborators (btb ex_adaptive) 0x9000 (btb_entry ex_pkt)
     = (BPU_MISS, 0, ex_btb_contents)
   \<and> priv_in_range 0 ex_adaptive
   \<and> btb_entry_at ex_collaborators ex_btb_contents 0 = None
   \<and> (\<exists>p' u'. bpu_probe ex_collaborators ex_adaptive 0x9000 ex_pkt 0 = Inr (p', u'))
   \<and> bpu_probe (ex_collaborators\<lparr>btb_entry_at := \<lambda>b a. None\<rparr>) ex_adaptive 0x9000 ex_pkt 0
       = bpu_probe ex_collaborators ex_adaptive 0x9000 ex_pkt 0"
proof -
  have h1: "btb_probe ex_collaborators (btb ex_adaptive) 0x9000 (btb_entry ex_pkt)
     = (BPU_MISS, 0, ex_btb_contents)"
    by (simp add: ex_defs)
  have h2: "priv_in_range 0 ex_adaptive"
    by (simp add: priv_in_range_def ex_defs)
  have e: "btb_entry_at ex_collaborators ex_btb_contents 0 = None"
    by (simp add: ex_defs)
  from probe_miss_reads_no_entry [OF h1 h2, of "\<lambda>b a. None"] h1 h2 e show ?thesis
    by blast
qed

subsection \<open>bpu\_add\<close>

text \<open>
  Claim C6: \<open>bpu_add\<close> calls \<open>btb_add\<close> for \<open>pc\<close> and the type, and adds one to
  \<open>btb_inserts\<close> of the privilege level, if and only if \<open>btb_probe_status\<close> of the
  response is MISS; otherwise the branch target buffer is as before. It calls
  \<open>adaptive_predictor_add\<close> for \<open>pc\<close> if and only if the unit has an adaptive
  predictor, the type is CONDITIONAL and \<open>ap_probe_status\<close> is MISS; otherwise the
  predictor is as before, so no other type reaches it. The privilege level has to index the
  statistics array when the counter is touched.
\<close>

theorem add_allocates_what_missed:
  assumes "btb_probe_status p = BPU_MISS \<Longrightarrow> priv_in_range priv u"
  shows "\<exists>u'. bpu_add C u pc ty p priv = Inr u'
           \<and> (Call_btb_add pc ty \<in> set (new_calls u u') \<longleftrightarrow> btb_probe_status p = BPU_MISS)
           \<and> btb u' = (if btb_probe_status p = BPU_MISS then btb_add C (btb u) pc ty else btb u)
           \<and> btb_inserts (stats_at u' priv)
               = btb_inserts (stats_at u priv) + (if btb_probe_status p = BPU_MISS then 1 else 0)
           \<and> (Call_ap_add pc \<in> set (new_calls u u') \<longleftrightarrow>
                ap u \<noteq> None \<and> ty = BRANCH_COND \<and> ap_probe_status p = BPU_MISS)
           \<and> ap u' = (case ap u of
                         None \<Rightarrow> None
                       | Some a \<Rightarrow>
                           if ty = BRANCH_COND \<and> ap_probe_status p = BPU_MISS
                           then Some (adaptive_predictor_add C a pc) else Some a)"
proof -
  from bpu_add_returns [OF assms] obtain u' where
    r: "bpu_add C u pc ty p priv = Inr u'" and
    b: "btb u' = (if btb_probe_status p = BPU_MISS then btb_add C (btb u) pc ty else btb u)" and
    s: "stats u' = (if btb_probe_status p = BPU_MISS
                    then (stats u)[nat priv := incr_btb_inserts (stats u ! nat priv)]
                    else stats u)" and
    a: "ap u' = (case ap u of
                   None \<Rightarrow> None
                 | Some a \<Rightarrow>
                     if ty = BRANCH_COND \<and> ap_probe_status p = BPU_MISS
                     then Some (adaptive_predictor_add C a pc) else Some a)" and
    c: "new_calls u u' =
          (if btb_probe_status p = BPU_MISS then [Call_btb_add pc ty] else [])
          @ (if ap u \<noteq> None \<and> ty = BRANCH_COND \<and> ap_probe_status p = BPU_MISS
             then [Call_ap_add pc] else [])"
    by blast
  from c have c1: "Call_btb_add pc ty \<in> set (new_calls u u') \<longleftrightarrow> btb_probe_status p = BPU_MISS"
    by (simp split: if_splits)
  from c have c2: "Call_ap_add pc \<in> set (new_calls u u') \<longleftrightarrow>
      ap u \<noteq> None \<and> ty = BRANCH_COND \<and> ap_probe_status p = BPU_MISS"
    by (simp split: if_splits)
  from assms have "btb_probe_status p = BPU_MISS \<longrightarrow> priv_in_range priv u" by simp
  from stats_at_incr [where f = incr_btb_inserts, OF this s]
  have "btb_inserts (stats_at u' priv)
          = btb_inserts (stats_at u priv) + (if btb_probe_status p = BPU_MISS then 1 else 0)"
    by (simp add: incr_btb_inserts_def)
  with r b a c1 c2 show ?thesis by blast
qed

text \<open>
  Adaptive mode, a conditional branch at 0x9000 that missed in both structures: one new
  slot in the buffer, one insert counted at level 1, one new counter in the predictor.
\<close>

theorem add_allocates_what_missed_witness:
  "btb_probe_status ex_pkt = BPU_MISS
   \<and> ap_probe_status ex_pkt = BPU_MISS
   \<and> priv_in_range 1 ex_adaptive
   \<and> (\<exists>u'. bpu_add ex_collaborators ex_adaptive 0x9000 BRANCH_COND ex_pkt 1 = Inr u'
         \<and> Call_btb_add 0x9000 BRANCH_COND \<in> set (new_calls ex_adaptive u')
         \<and> btb u' = ex_btb_contents @ [(0x9000, \<lparr>target = 0, type = BRANCH_COND, pred = 1\<rparr>)]
         \<and> btb_inserts (stats_at u' 1) = 1
         \<and> Call_ap_add 0x9000 \<in> set (new_calls ex_adaptive u')
         \<and> ap u' = Some [(0x3000, 0), (0x1000, 3), (0x9000, 1)])"
proof -
  have m1: "btb_probe_status ex_pkt = BPU_MISS" and m2: "ap_probe_status ex_pkt = BPU_MISS"
    by (simp_all add: ex_defs)
  have h: "priv_in_range 1 ex_adaptive"
    by (simp add: priv_in_range_def ex_defs)
  have h1: "btb_probe_status ex_pkt = BPU_MISS \<Longrightarrow> priv_in_range 1 ex_adaptive"
    using h by simp
  have a: "ap ex_adaptive = Some [(0x3000, 0), (0x1000, 3)]"
    and b: "btb ex_adaptive = ex_btb_contents"
    and z: "btb_inserts (stats_at ex_adaptive 1) = 0"
    by (simp_all add: stats_at_def ex_defs)
  have f: "btb_add ex_collaborators ex_btb_contents 0x9000 BRANCH_COND
             = ex_btb_contents @ [(0x9000, \<lparr>target = 0, type = BRANCH_COND, pred = 1\<rparr>)]"
    and g: "adaptive_predictor_add ex_collaborators [(0x3000, 0), (0x1000, 3)] 0x9000
             = [(0x3000, 0), (0x1000, 3), (0x9000, 1)]"
    by (simp_all add: ex_collaborators_def ex_btb_add_def ex_ap_add_def)
  from add_allocates_what_missed [where p = ex_pkt and priv = 1 and u = ex_adaptive
      and C = ex_collaborators and pc = "0x9000" and ty = BRANCH_COND, OF h1]
  have "\<exists>u'. bpu_add ex_collaborators ex_adaptive 0x9000 BRANCH_COND ex_pkt 1 = Inr u'
         \<and> Call_btb_add 0x9000 BRANCH_COND \<in> set (new_calls ex_adaptive u')
         \<and> btb u' = ex_btb_contents @ [(0x9000, \<lparr>target = 0, type = BRANCH_COND, pred = 1\<rparr>)]
         \<and> btb_inserts (stats_at u' 1) = 1
         \<and> Call_ap_add 0x9000 \<in> set (new_calls ex_adaptive u')
         \<and> ap u' = Some [(0x3000, 0), (0x1000, 3), (0x9000, 1)]"
    by (simp add: m1 m2 a b z f g)
  with m1 m2 h show ?thesis by blast
qed

subsection \<open>bpu\_update\<close>

text \<open>
  Claim C7: for a response whose statuses are HIT or MISS, \<open>bpu_update\<close> calls
  \<open>btb_update\<close> on the entry of the response with the resolved target and taken bit, and
  adds one to \<open>btb_updates\<close> of the privilege level, if and only if
  \<open>btb_probe_status\<close> is HIT; otherwise the branch target buffer is as before. It calls
  \<open>adaptive_predictor_update\<close> with the taken bit if and only if the unit has an
  adaptive predictor, the type is CONDITIONAL and \<open>ap_probe_status\<close> is HIT. The tests
  of lines 173 and 183 are on nonzero ints; \<open>bpu_update_returns\<close> is the fact for
  arbitrary statuses. What \<open>btb_update\<close> does with the target and the counter is the
  collaborator's part.
\<close>

theorem update_refreshes_what_hit:
  assumes "probe_status (btb_probe_status p)" and "probe_status (ap_probe_status p)"
    and "btb_probe_status p = BPU_HIT \<Longrightarrow> priv_in_range priv u"
  shows "\<exists>u'. bpu_update C u pc tgt prd ty p priv = Inr u'
           \<and> (Call_btb_update (btb_entry p) tgt prd ty \<in> set (new_calls u u') \<longleftrightarrow>
                btb_probe_status p = BPU_HIT)
           \<and> btb u' = (if btb_probe_status p = BPU_HIT
                        then collaborators.btb_update C (btb u) (btb_entry p) tgt prd ty
                        else btb u)
           \<and> btb_updates (stats_at u' priv)
               = btb_updates (stats_at u priv) + (if btb_probe_status p = BPU_HIT then 1 else 0)
           \<and> (Call_ap_update pc prd \<in> set (new_calls u u') \<longleftrightarrow>
                ap u \<noteq> None \<and> ty = BRANCH_COND \<and> ap_probe_status p = BPU_HIT)
           \<and> ap u' = (case ap u of
                         None \<Rightarrow> None
                       | Some a \<Rightarrow>
                           if ty = BRANCH_COND \<and> ap_probe_status p = BPU_HIT
                           then Some (adaptive_predictor_update C a pc prd) else Some a)"
proof -
  note n1 = probe_status_nonzero [OF assms(1)]
  note n2 = probe_status_nonzero [OF assms(2)]
  have pr: "btb_probe_status p \<noteq> BPU_MISS \<Longrightarrow> priv_in_range priv u"
    using assms(3) n1 by simp
  from bpu_update_returns [OF pr] obtain u' where
    r: "bpu_update C u pc tgt prd ty p priv = Inr u'" and
    b: "btb u' = (if btb_probe_status p \<noteq> BPU_MISS
                  then collaborators.btb_update C (btb u) (btb_entry p) tgt prd ty
                  else btb u)" and
    s: "stats u' = (if btb_probe_status p \<noteq> BPU_MISS
                    then (stats u)[nat priv := incr_btb_updates (stats u ! nat priv)]
                    else stats u)" and
    a: "ap u' = (case ap u of
                   None \<Rightarrow> None
                 | Some a \<Rightarrow>
                     if ty = BRANCH_COND \<and> ap_probe_status p \<noteq> BPU_MISS
                     then Some (adaptive_predictor_update C a pc prd) else Some a)" and
    c: "new_calls u u' =
          (if btb_probe_status p \<noteq> BPU_MISS
           then [Call_btb_update (btb_entry p) tgt prd ty] else [])
          @ (if ap u \<noteq> None \<and> ty = BRANCH_COND \<and> ap_probe_status p \<noteq> BPU_MISS
             then [Call_ap_update pc prd] else [])"
    by blast
  from c have c1: "Call_btb_update (btb_entry p) tgt prd ty \<in> set (new_calls u u') \<longleftrightarrow>
      btb_probe_status p = BPU_HIT"
    by (simp add: n1 n2 split: if_splits)
  from c have c2: "Call_ap_update pc prd \<in> set (new_calls u u') \<longleftrightarrow>
      ap u \<noteq> None \<and> ty = BRANCH_COND \<and> ap_probe_status p = BPU_HIT"
    by (simp add: n1 n2 split: if_splits)
  from pr have "btb_probe_status p \<noteq> BPU_MISS \<longrightarrow> priv_in_range priv u" by simp
  from stats_at_incr [where f = incr_btb_updates, OF this s]
  have s': "btb_updates (stats_at u' priv)
          = btb_updates (stats_at u priv) + (if btb_probe_status p = BPU_HIT then 1 else 0)"
    by (simp add: incr_btb_updates_def n1)
  from b have b': "btb u' = (if btb_probe_status p = BPU_HIT
                        then collaborators.btb_update C (btb u) (btb_entry p) tgt prd ty
                        else btb u)"
    by (simp add: n1)
  from a have a': "ap u' = (case ap u of
                         None \<Rightarrow> None
                       | Some a \<Rightarrow>
                           if ty = BRANCH_COND \<and> ap_probe_status p = BPU_HIT
                           then Some (adaptive_predictor_update C a pc prd) else Some a)"
    by (simp add: n2 split: option.splits)
  from r c1 b' s' c2 a' show ?thesis by blast
qed

text \<open>
  Adaptive mode, the conditional branch at 0x1000 resolved as taken with target 0x2400 after
  a hit in both structures: the example buffer stores the target and moves the counter from
  1 to 2, one update is counted at level 1, and the predictor's counter stays at 3.
\<close>

theorem update_refreshes_what_hit_witness:
  "probe_status (btb_probe_status ex_hit_pkt)
   \<and> probe_status (ap_probe_status ex_hit_pkt)
   \<and> btb_probe_status ex_hit_pkt = BPU_HIT
   \<and> ap_probe_status ex_hit_pkt = BPU_HIT
   \<and> priv_in_range 1 ex_adaptive
   \<and> (\<exists>u'. bpu_update ex_collaborators ex_adaptive 0x1000 0x2400 1 BRANCH_COND ex_hit_pkt 1
               = Inr u'
         \<and> Call_btb_update 3 0x2400 1 BRANCH_COND \<in> set (new_calls ex_adaptive u')
         \<and> btb_entry_at ex_collaborators (btb u') 3
             = Some \<lparr>target = 0x2400, type = BRANCH_COND, pred = 2\<rparr>
         \<and> btb_updates (stats_at u' 1) = 1
         \<and> Call_ap_update 0x1000 1 \<in> set (new_calls ex_adaptive u')
         \<and> ap u' = Some [(0x3000, 0), (0x1000, 3)])"
proof -
  have m1: "btb_probe_status ex_hit_pkt = BPU_HIT" and m2: "ap_probe_status ex_hit_pkt = BPU_HIT"
    and m3: "btb_entry ex_hit_pkt = 3"
    by (simp_all add: ex_hit_pkt_def BPU_HIT_def)
  have s1: "probe_status (btb_probe_status ex_hit_pkt)"
    and s2: "probe_status (ap_probe_status ex_hit_pkt)"
    by (simp_all add: m1 m2 probe_status_def)
  have h: "priv_in_range 1 ex_adaptive"
    by (simp add: priv_in_range_def ex_defs)
  have h1: "btb_probe_status ex_hit_pkt = BPU_HIT \<Longrightarrow> priv_in_range 1 ex_adaptive"
    using h by simp
  have a: "ap ex_adaptive = Some [(0x3000, 0), (0x1000, 3)]"
    and b: "btb ex_adaptive = ex_btb_contents"
    and z: "btb_updates (stats_at ex_adaptive 1) = 0"
    by (simp_all add: stats_at_def ex_defs)
  have f: "btb_entry_at ex_collaborators
             (collaborators.btb_update ex_collaborators ex_btb_contents 3 0x2400 1 BRANCH_COND) 3
             = Some \<lparr>target = 0x2400, type = BRANCH_COND, pred = 2\<rparr>"
    and g: "adaptive_predictor_update ex_collaborators [(0x3000, 0), (0x1000, 3)] 0x1000 1
             = [(0x3000, 0), (0x1000, 3)]"
    by (simp_all add: ex_collaborators_def ex_btb_update_def ex_btb_entry_at_def
        ex_ap_update_def ex_btb_contents_def sat_counter_def)
  from update_refreshes_what_hit [where p = ex_hit_pkt and priv = 1 and u = ex_adaptive
      and C = ex_collaborators and pc = "0x1000" and tgt = "0x2400" and prd = 1
      and ty = BRANCH_COND, OF s1 s2 h1]
  have "\<exists>u'. bpu_update ex_collaborators ex_adaptive 0x1000 0x2400 1 BRANCH_COND ex_hit_pkt 1
               = Inr u'
         \<and> Call_btb_update 3 0x2400 1 BRANCH_COND \<in> set (new_calls ex_adaptive u')
         \<and> btb_entry_at ex_collaborators (btb u') 3
             = Some \<lparr>target = 0x2400, type = BRANCH_COND, pred = 2\<rparr>
         \<and> btb_updates (stats_at u' 1) = 1
         \<and> Call_ap_update 0x1000 1 \<in> set (new_calls ex_adaptive u')
         \<and> ap u' = Some [(0x3000, 0), (0x1000, 3)]"
    by (auto simp add: m1 m2 m3 a b z f g)
  with s1 s2 m1 m2 h show ?thesis by blast
qed

end
